theory Spec2Isabelle
  imports Main
begin

section \<open>Data model\<close>

text \<open>
  Times, durations and offsets are JavaScript numbers holding whole milliseconds; they are
  modelled as \<open>int\<close>. Optional properties (\<open>x?: T\<close>, \<open>Maybe<T>\<close>) are options.
\<close>

datatype item_type = Program | Commercial | Offline | Redirect | Error | Loading

text \<open>
  \<open>StreamLineupItem\<close>: one flat record for every variant, so that the object spread
  \<open>{...lineupItem, streamDuration: d}\<close> is a record update. \<open>channel\<close> is the target of a
  redirect program and is read for that variant only.
\<close>

record lineup_item =
  itype :: item_type
  title :: "string option"
  error :: "string option"
  duration :: int
  start :: "int option"
  streamDuration :: "int option"
  beginningOffset :: "int option"
  channel :: string
  externalSourceId :: string
  externalKey :: string

text \<open>The result of \<open>getCurrentProgramAndTimeElapsed\<close>.\<close>

record current_program =
  program :: lineup_item
  timeElapsed :: int
  programIndex :: int

record Channel =
  uuid :: string
  name :: string
  number :: int

record Lineup =
  items :: "lineup_item list"

text \<open>
  \<open>StreamQueryString\<close>. \<open>req_channel\<close> is the channel number or id as the template literal
  prints it.
\<close>

record stream_query =
  req_channel :: "string option"
  req_session :: "int option"
  req_m3u8 :: "bool option"
  req_audioOnly :: bool

record player_context =
  lineupItem :: lineup_item
  ctx_channel :: Channel
  m3u8 :: bool
  audioOnly :: bool

text \<open>What \<open>await player.play(outStream)\<close> does: it throws, or returns an emitter or undefined.\<close>

datatype play_outcome = PlayThrows | PlayReturns "nat option"

datatype VideoStreamResult =
    Success
  | ErrorResult int string

text \<open>
  The collaborators reached through \<open>getServerContext()\<close>, the calculator, the throttler
  and the player, whose code is outside \<open>VideoStream.ts\<close>, are parameters.
\<close>

record server_ctx =
  getChannel :: "string \<Rightarrow> Channel option"
  loadLineup :: "string \<Rightarrow> Lineup"
  loadChannelAndLineup :: "string \<Rightarrow> (Channel \<times> Lineup) option"
  ffmpegExecutablePath :: string
  fileExists :: "string \<Rightarrow> bool"
  getCurrentProgramAndTimeElapsed :: "int \<Rightarrow> Channel \<Rightarrow> Lineup \<Rightarrow> current_program option"
  createLineupItem :: "current_program \<Rightarrow> Channel \<Rightarrow> lineup_item"
  wereThereTooManyAttempts :: "int \<Rightarrow> lineup_item \<Rightarrow> bool"
  SLACK :: int
  play :: "player_context \<Rightarrow> play_outcome"

text \<open>
  The mutable world of a request: the Playback Cache, and two traces of what the request
  did: the arguments of every invocation of \<open>startStream\<close> and the contexts on which
  \<open>player.play\<close> was called, oldest first; \<open>cleanUps\<close> counts the calls of \<open>player.cleanUp\<close>,
  \<open>stopped\<close> is the flag of the \<open>stop\<close> closure and \<open>outStreamEnded\<close> says that \<open>null\<close> was
  pushed into the output stream.
\<close>

record server_state =
  channelCache :: "(string \<times> int) \<Rightarrow> lineup_item option"
  calls :: "(int \<times> bool) list"
  played :: "player_context list"
  cleanUps :: nat
  stopped :: bool
  outStreamEnded :: bool

section \<open>Playback Cache\<close>

text \<open>
  Modelled from the spec: the Playback Cache (\<open>serverCtx.channelCache\<close>, whose source is not
  among the files verified here). Spec 3 and 4.3: entries are keyed by (channel id,
  timestamp); \<open>put\<close> stores the item, \<open>get\<close> hits for the exact timestamp and misses for
  any other, \<open>clear\<close> invalidates by channel id; nothing expires.
\<close>

definition recordPlayback :: "server_state \<Rightarrow> string \<Rightarrow> int \<Rightarrow> lineup_item \<Rightarrow> server_state" where
  "recordPlayback st channelId t0 item =
     st\<lparr>channelCache := (channelCache st)((channelId, t0) \<mapsto> item)\<rparr>"

definition getCurrentLineupItem :: "server_state \<Rightarrow> string \<Rightarrow> int \<Rightarrow> lineup_item option" where
  "getCurrentLineupItem st channelId t = channelCache st (channelId, t)"

definition clearPlayback :: "server_state \<Rightarrow> string \<Rightarrow> server_state" where
  "clearPlayback st channelId =
     st\<lparr>channelCache := (\<lambda>k. if fst k = channelId then None else channelCache st k)\<rparr>"

section \<open>VideoStream.startStream\<close>

text \<open>
  Modelled from the spec: \<open>createOfflineStreamLineupIteam\<close> (imported from
  \<open>dao/derived_types/StreamLineup\<close>, not among the files verified here) synthesizes an
  offline item of the given duration, starting at 0 (spec 4.6, step 3).
\<close>

definition createOfflineStreamLineupIteam :: "int \<Rightarrow> lineup_item" where
  "createOfflineStreamLineupIteam d =
     \<lparr>itype = Offline, title = None, error = None, duration = d, start = Some 0,
      streamDuration = None, beginningOffset = None, channel = [],
      externalSourceId = [], externalKey = []\<rparr>"

text \<open>\<open>Array.prototype.join\<close>.\<close>

fun join :: "string \<Rightarrow> string list \<Rightarrow> string" where
  "join sep [] = []"
| "join sep [x] = x"
| "join sep (x # y # ys) = x @ sep @ join sep (y # ys)"

text \<open>The item recorded when a redirect target is already in \<open>redirectChannels\<close> (lines 132-140).\<close>

definition recursiveRedirectItem :: "string list \<Rightarrow> lineup_item" where
  "recursiveRedirectItem redirectChannels =
     \<lparr>itype = Error, title = Some ''Error'',
      error = Some (''Recursive channel redirect found: '' @ join '', '' redirectChannels),
      duration = 60000, start = Some 0,
      streamDuration = None, beginningOffset = None, channel = [],
      externalSourceId = [], externalKey = []\<rparr>"

text \<open>The program substituted when the redirect target cannot be loaded (lines 151-159).\<close>

definition invalidRedirectProgram :: current_program where
  "invalidRedirectProgram =
     \<lparr>program = (createOfflineStreamLineupIteam 60000)
        \<lparr>itype := Error,
         error := Some ''Invalid redirect to a channel that doesn't exist''\<rparr>,
      timeElapsed = 0, programIndex = - 1\<rparr>"

definition deepCopy :: "lineup_item \<Rightarrow> lineup_item" where
  "deepCopy item = item"

text \<open>
  The variables of the redirect loop (lines 108-117): the world, \<open>lineupItem\<close>,
  \<open>currentProgram\<close>, \<open>channelContext\<close>, \<open>redirectChannels\<close> and \<open>upperBounds\<close>.
\<close>

record walk_vars =
  w_state :: server_state
  w_lineupItem :: "lineup_item option"
  w_currentProgram :: "current_program option"
  w_channelContext :: Channel
  w_redirectChannels :: "string list"
  w_upperBounds :: "int list"

definition initialVars :: "server_state \<Rightarrow> current_program option \<Rightarrow> Channel \<Rightarrow> walk_vars" where
  "initialVars st currentProgram channel' =
     \<lparr>w_state = st, w_lineupItem = None, w_currentProgram = currentProgram,
      w_channelContext = channel', w_redirectChannels = [], w_upperBounds = []\<rparr>"

text \<open>
  One pass through the \<open>while\<close> loop of lines 119-179: the loop test and the body. \<open>Exit\<close> is
  a failed test or the \<open>break\<close>; \<open>Continue\<close> is the \<open>continue\<close> of line 160 or the end of the
  body.
\<close>

datatype loop_step = Continue walk_vars | Exit walk_vars

definition walk_body :: "server_ctx \<Rightarrow> int \<Rightarrow> walk_vars \<Rightarrow> loop_step" where
  "walk_body env startTimestamp v =
     (case w_currentProgram v of
        None \<Rightarrow> Exit v
      | Some cp \<Rightarrow>
          if itype (program cp) \<noteq> Redirect then Exit v
          else
            let redirectChannels' = w_redirectChannels v @ [uuid (w_channelContext v)];
                upperBounds' = w_upperBounds v @ [duration (program cp) - timeElapsed cp];
                st' = (if channel (program cp) \<in> set redirectChannels'
                       then recordPlayback (w_state v) (uuid (w_channelContext v)) startTimestamp
                              (recursiveRedirectItem redirectChannels')
                       else w_state v);
                nextChannelId = channel (program cp)
            in (case loadChannelAndLineup env nextChannelId of
                 None \<Rightarrow>
                   Continue (v\<lparr>w_state := st',
                               w_currentProgram := Some invalidRedirectProgram,
                               w_redirectChannels := redirectChannels',
                               w_upperBounds := upperBounds'\<rparr>)
               | Some newChannelAndLineup \<Rightarrow>
                   (case getCurrentLineupItem st' (uuid (fst newChannelAndLineup)) startTimestamp of
                      Some item \<Rightarrow>
                        Exit (v\<lparr>w_state := st', w_lineupItem := Some (deepCopy item),
                                w_channelContext := fst newChannelAndLineup,
                                w_redirectChannels := redirectChannels',
                                w_upperBounds := upperBounds'\<rparr>)
                    | None \<Rightarrow>
                        Continue (v\<lparr>w_state := st', w_lineupItem := None,
                                    w_currentProgram :=
                                      getCurrentProgramAndTimeElapsed env startTimestamp
                                        (fst newChannelAndLineup) (snd newChannelAndLineup),
                                    w_channelContext := fst newChannelAndLineup,
                                    w_redirectChannels := redirectChannels',
                                    w_upperBounds := upperBounds'\<rparr>))))"

text \<open>
  The loop. It has no bound of its own, so the model is a partial function: \<open>None\<close> is a
  walk that never leaves the loop.
\<close>

partial_function (option) walk :: "server_ctx \<Rightarrow> int \<Rightarrow> walk_vars \<Rightarrow> walk_vars option" where
  "walk env startTimestamp v =
     (case walk_body env startTimestamp v of
        Continue v' \<Rightarrow> walk env startTimestamp v'
      | Exit v' \<Rightarrow> Some v')"

text \<open>lodash \<open>nth\<close> at a non-negative index: the element, or undefined out of range.\<close>

definition nth_opt :: "'a list \<Rightarrow> nat \<Rightarrow> 'a option" where
  "nth_opt xs i = (if i < length xs then Some (xs ! i) else None)"

definition MAX_SAFE_INTEGER :: int where
  "MAX_SAFE_INTEGER = 9007199254740991"

text \<open>
  The loop of lines 240-261, \<open>for (let i = redirectChannels.length - 1; i >= 0; i--)\<close>. The
  counter of the model is \<open>i + 1\<close>, so the body at \<open>Suc i\<close> is the source's body at \<open>i\<close> and
  \<open>redirectChannels[i]\<close> is always in range. It returns the state and \<open>lineupItem\<close>.
\<close>

fun adjustUpperBounds ::
  "string list \<Rightarrow> int list \<Rightarrow> int \<Rightarrow> int \<Rightarrow> nat \<Rightarrow> server_state \<Rightarrow> lineup_item \<Rightarrow> int \<Rightarrow>
   server_state \<times> lineup_item" where
  "adjustUpperBounds redirectChannels upperBounds startTimestamp beginningOffset' 0 st item upperBound =
     (st, item)"
| "adjustUpperBounds redirectChannels upperBounds startTimestamp beginningOffset' (Suc i) st item upperBound =
     (case nth_opt upperBounds i of
        None \<Rightarrow>
          adjustUpperBounds redirectChannels upperBounds startTimestamp beginningOffset' i
            (recordPlayback st (redirectChannels ! i) startTimestamp item) item upperBound
      | Some thisUpperBound \<Rightarrow>
          (let nextBound = thisUpperBound + beginningOffset';
               prevBound = (case streamDuration item of
                              None \<Rightarrow> upperBound
                            | Some d \<Rightarrow> min upperBound d);
               newDuration = min nextBound prevBound;
               item' = item\<lparr>streamDuration := Some newDuration\<rparr>
           in adjustUpperBounds redirectChannels upperBounds startTimestamp beginningOffset' i
                (recordPlayback st (redirectChannels ! i) startTimestamp item') item' newDuration))"

text \<open>The item that replaces the resolved one when the throttler says so (lines 292-297).\<close>

definition throttledItem :: lineup_item where
  "throttledItem =
     \<lparr>itype = Error, title = None, error = Some ''Too many attempts, throttling'',
      duration = 60000, start = Some 0,
      streamDuration = None, beginningOffset = None, channel = [],
      externalSourceId = [], externalKey = []\<rparr>"

text \<open>The \<open>stop\<close> closure of lines 321-329.\<close>

definition stop :: "server_state \<Rightarrow> server_state" where
  "stop st =
     (if \<not> stopped st
      then st\<lparr>stopped := True, cleanUps := Suc (cleanUps st), outStreamEnded := True\<rparr>
      else st)"

text \<open>
  Lines 235-363, entered with a defined \<open>lineupItem\<close>: the bounds of the redirect chain, the
  cache entry of the requested channel, the throttler, the player. \<open>ctx_channel\<close> stands for
  \<open>combinedChannel\<close>; the transcoding, ffmpeg and settings parts of the player context are
  not modelled.
\<close>

definition finishStream ::
  "server_ctx \<Rightarrow> server_state \<Rightarrow> stream_query \<Rightarrow> int \<Rightarrow> Channel \<Rightarrow> Channel \<Rightarrow>
   string list \<Rightarrow> int list \<Rightarrow> lineup_item \<Rightarrow> VideoStreamResult \<times> server_state" where
  "finishStream env st req startTimestamp channel' channelContext redirectChannels upperBounds item =
     (let session = (case req_session req of None \<Rightarrow> 0 | Some s \<Rightarrow> s);
          beginningOffset' = (case beginningOffset item of None \<Rightarrow> 0 | Some b \<Rightarrow> b);
          bounded = adjustUpperBounds redirectChannels upperBounds startTimestamp beginningOffset'
                      (length redirectChannels) st item MAX_SAFE_INTEGER;
          st1 = recordPlayback (fst bounded) (uuid channel') startTimestamp (snd bounded);
          item' = (if wereThereTooManyAttempts env session (snd bounded)
                   then throttledItem else snd bounded);
          playerContext = \<lparr>lineupItem = item', ctx_channel = channelContext,
                           m3u8 = (case req_m3u8 req of None \<Rightarrow> False | Some b \<Rightarrow> b),
                           audioOnly = req_audioOnly req\<rparr>;
          st2 = st1\<lparr>played := played st1 @ [playerContext]\<rparr>
      in case play env playerContext of
           PlayThrows \<Rightarrow> (ErrorResult 500 ''Unable to start playing video.'', stop st2)
         | PlayReturns ffmpegEmitter \<Rightarrow> (Success, st2))"

text \<open>
  \<open>startStream\<close>. \<open>None\<close> is a request whose redirect loop never ends. The second
  \<open>isNil(channel)\<close> test (line 85) and the test of line 218 repeat tests already passed and
  have no branch in the model. The one recursive call is the skip-ahead of line 216.
\<close>

function startStream ::
  "server_ctx \<Rightarrow> server_state \<Rightarrow> stream_query \<Rightarrow> int \<Rightarrow> bool \<Rightarrow>
   (VideoStreamResult \<times> server_state) option" where
  "startStream env st0 req startTimestamp allowSkip =
     (let st = st0\<lparr>calls := calls st0 @ [(startTimestamp, allowSkip)]\<rparr> in
      case req_channel req of
        None \<Rightarrow> Some (ErrorResult 400 ''No Channel Specified'', st)
      | Some reqChannel \<Rightarrow>
      (case getChannel env reqChannel of
        None \<Rightarrow> Some (ErrorResult 404 (''Channel '' @ reqChannel @ '' doesn't exist''), st)
      | Some channel' \<Rightarrow>
      (let lineup = loadLineup env (uuid channel') in
       if \<not> fileExists env (ffmpegExecutablePath env) then
         Some (ErrorResult 500 (''FFMPEG path ('' @ ffmpegExecutablePath env @
                 '') is invalid. The file (executable) doesn't exist.''), st)
       else
       (case walk env startTimestamp
          (initialVars st (getCurrentProgramAndTimeElapsed env startTimestamp channel' lineup) channel') of
          None \<Rightarrow> None
        | Some w \<Rightarrow>
          (case w_lineupItem w of
             Some item \<Rightarrow>
               Some (finishStream env (w_state w) req startTimestamp channel' (w_channelContext w)
                       (w_redirectChannels w) (w_upperBounds w) item)
           | None \<Rightarrow>
             (case w_currentProgram w of
                None \<Rightarrow>
                  Some (ErrorResult 500 ''Could not find currentProgram for channel'', w_state w)
              | Some currentProgram \<Rightarrow>
                  if itype (program currentProgram) = Offline \<and> length (items lineup) = 1 \<and>
                     programIndex currentProgram \<noteq> - 1
                  then
                    Some (finishStream env (w_state w) req startTimestamp channel'
                            (w_channelContext w) (w_redirectChannels w) (w_upperBounds w)
                            (createLineupItem env
                               (currentProgram\<lparr>program :=
                                  createOfflineStreamLineupIteam (365 * 24 * 60 * 60 * 1000)\<rparr>)
                               (w_channelContext w)))
                  else if allowSkip \<and> itype (program currentProgram) = Offline \<and>
                     duration (program currentProgram) - timeElapsed currentProgram \<le> SLACK env + 1
                  then
                    startStream env (foldl clearPlayback (w_state w) (w_redirectChannels w)) req
                      (startTimestamp +
                         (duration (program currentProgram) - timeElapsed currentProgram) + 1)
                      False
                  else
                    Some (finishStream env (w_state w) req startTimestamp channel'
                            (w_channelContext w) (w_redirectChannels w) (w_upperBounds w)
                            (createLineupItem env currentProgram (w_channelContext w)))))))))"
  by pat_completeness auto
termination
  by (relation "measure (\<lambda>(env, st0, req, startTimestamp, allowSkip). if allowSkip then 1 else 0)")
     auto

section \<open>Redirect cycles\<close>

text \<open>
  \<open>cycleFound\<close>: the loop is about to run an iteration whose redirect target is already in
  the visited list, that is, the test of line 128 will succeed.
\<close>

definition cycleFound :: "walk_vars \<Rightarrow> bool" where
  "cycleFound v =
     (case w_currentProgram v of
        None \<Rightarrow> False
      | Some cp \<Rightarrow>
          itype (program cp) = Redirect \<and>
          channel (program cp) \<in> set (w_redirectChannels v @ [uuid (w_channelContext v)]))"

text \<open>
  Notions for the proofs. \<open>redirectsInto\<close>: at this time the channel loads and resolves to a
  redirect into the given set. \<open>walkInv\<close>, the invariant of the loop while nothing is found
  in the cache for the timestamp of the request except what the loop itself recorded: every
  cached item is the error item of a prefix of the visited list, the visited list starts
  with the requested channel, and, when the current program is a redirect, the current
  channel has no cache entry, it is the channel that the store loads under its id, and every
  visited channel redirects to a visited channel or to the current one. \<open>unpoisoned\<close>: the
  visited channels that have no cache entry yet.
\<close>

definition redirectsInto :: "server_ctx \<Rightarrow> int \<Rightarrow> string \<Rightarrow> string set \<Rightarrow> bool" where
  "redirectsInto env ts c S =
     (\<exists>ch lu cp. loadChannelAndLineup env c = Some (ch, lu) \<and>
        getCurrentProgramAndTimeElapsed env ts ch lu = Some cp \<and>
        itype (program cp) = Redirect \<and> channel (program cp) \<in> S)"

definition walkInv :: "server_ctx \<Rightarrow> int \<Rightarrow> string \<Rightarrow> walk_vars \<Rightarrow> bool" where
  "walkInv env ts origin v =
     (w_lineupItem v = None \<and>
      hd (w_redirectChannels v @ [uuid (w_channelContext v)]) = origin \<and>
      (\<forall>c item. channelCache (w_state v) (c, ts) = Some item \<longrightarrow>
         (\<exists>n. 0 < n \<and> n \<le> length (w_redirectChannels v) \<and>
              item = recursiveRedirectItem (take n (w_redirectChannels v)))) \<and>
      (\<forall>cp. w_currentProgram v = Some cp \<and> itype (program cp) = Redirect \<longrightarrow>
         channelCache (w_state v) (uuid (w_channelContext v), ts) = None \<and>
         (\<exists>lu. loadChannelAndLineup env (uuid (w_channelContext v)) = Some (w_channelContext v, lu) \<and>
               getCurrentProgramAndTimeElapsed env ts (w_channelContext v) lu = Some cp) \<and>
         (\<forall>c \<in> set (w_redirectChannels v).
            redirectsInto env ts c (set (w_redirectChannels v) \<union> {uuid (w_channelContext v)}))))"

definition unpoisoned :: "int \<Rightarrow> walk_vars \<Rightarrow> string set" where
  "unpoisoned ts v =
     {c \<in> set (w_redirectChannels v @ [uuid (w_channelContext v)]).
        channelCache (w_state v) (c, ts) = None}"

section \<open>JellyfinPlayer\<close>

text \<open>
  Objects created with \<open>new\<close> (the \<open>FFMPEG\<close> wrappers, the readable streams they spawn, the
  event emitter, the play-status task) are numbered from an allocation counter. The world
  of a player records what was done to them: the listeners registered on \<open>FFMPEG\<close> objects,
  the streams piped into \<open>outStream\<close> (with the \<open>end\<close> option of the pipe), the calls of
  \<open>spawnStream\<close>, \<open>spawnError\<close>, \<open>kill\<close>, \<open>scheduleTask\<close> and \<open>task.stop\<close>, and the events
  emitted on the emitter, each oldest first.
\<close>

datatype ffevent = EvEnd | EvClose | EvError string

datatype event_name = OnEnd | OnClose | OnError

fun event_name_of :: "ffevent \<Rightarrow> event_name" where
  "event_name_of EvEnd = OnEnd"
| "event_name_of EvClose = OnClose"
| "event_name_of (EvError err) = OnError"

record stream_details =
  sd_duration :: "int option"

record jellyfin_stream =
  streamUrl :: string
  streamDetails :: "stream_details option"

record media_source =
  accessToken :: string

text \<open>
  The closures registered as listeners: the three that re-emit on the emitter, and the
  \<open>error\<close> listener of lines 156-188, which captures the emitter and \<open>stream\<close>.
\<close>

datatype handler =
    EmitEnd nat
  | EmitClose nat
  | EmitError nat
  | ReplaceFailed nat jellyfin_stream

text \<open>
  A call of \<open>spawnStream\<close>. The source passes \<open>(lineupItem.start ?? 0) / 1000\<close> and
  \<open>(lineupItem.streamDuration / 1000).toString()\<close>; the record keeps the millisecond values
  before the division, and \<open>None\<close> for a duration argument that is undefined.
\<close>

record spawn_call =
  sp_ffmpeg :: nat
  sp_streamUrl :: string
  sp_streamDetails :: "stream_details option"
  sp_startTime_ms :: int
  sp_duration_ms :: "int option"
  sp_token :: string

record jf_world =
  nextId :: nat
  listeners :: "(nat \<times> event_name \<times> handler) list"
  piped :: "(nat \<times> bool) list"
  spawnStreamCalls :: "spawn_call list"
  spawnErrorCalls :: "(nat \<times> string \<times> string \<times> int) list"
  killCalls :: "nat list"
  scheduledTasks :: "nat list"
  taskStopCalls :: "nat list"
  emitted :: "(nat \<times> ffevent) list"

text \<open>
  The fields of the player (\<open>context'\<close> is the field \<open>context\<close>), and \<open>ffmpegOutStream\<close>, the
  local variable of \<open>play\<close> that the \<open>error\<close> listener reads and reassigns.
\<close>

record JellyfinPlayer =
  context' :: player_context
  ffmpeg :: "nat option"
  killed :: bool
  updatePlayStatusTask :: "nat option"
  ffmpegOutStream :: "nat option"

text \<open>
  The collaborators of the player are parameters: the media source repository, the stream
  negotiator \<open>JellyfinStreamDetails.getStream\<close>, whether \<open>spawnStream\<close> and \<open>spawnError\<close> return a
  stream or undefined, the \<open>updatePlayStatus\<close> setting and \<open>constants.SLACK\<close>.
\<close>

record jellyfin_env =
  findServer :: "string \<Rightarrow> media_source option"
  getStream :: "lineup_item \<Rightarrow> jellyfin_stream option"
  spawnStreamReturns :: bool
  spawnErrorReturns :: bool
  updatePlayStatus :: bool
  constants_SLACK :: int

text \<open>
  Modelled from the spec: \<open>isContentBackedLineupIteam\<close> (from
  \<open>dao/derived_types/StreamLineup\<close>, not among the files verified here) holds of the items
  backed by an external media source, the programmes and the commercials.
\<close>

definition isContentBackedLineupIteam :: "lineup_item \<Rightarrow> bool" where
  "isContentBackedLineupIteam item = (itype item = Program \<or> itype item = Commercial)"

text \<open>
  \<open>cleanUp\<close> (lines 34-45). The base class \<open>Player\<close> is not among the files verified here;
  spec 4.5 gives \<open>cleanup\<close> no effect beyond those of this method, so \<open>super.cleanUp()\<close> is
  taken to do nothing.
\<close>

definition cleanUp :: "JellyfinPlayer \<times> jf_world \<Rightarrow> JellyfinPlayer \<times> jf_world" where
  "cleanUp pw =
     (let p = (fst pw)\<lparr>killed := True\<rparr>;
          w = (case updatePlayStatusTask p of
                 None \<Rightarrow> snd pw
               | Some task \<Rightarrow> (snd pw)\<lparr>taskStopCalls := taskStopCalls (snd pw) @ [task]\<rparr>)
      in case ffmpeg p of
           None \<Rightarrow> (p, w)
         | Some f \<Rightarrow> (p\<lparr>ffmpeg := None\<rparr>, w\<lparr>killCalls := killCalls w @ [f]\<rparr>))"

text \<open>The duration argument computed at lines 82-90.\<close>

definition effectiveStreamDuration :: "jellyfin_env \<Rightarrow> lineup_item \<Rightarrow> int option" where
  "effectiveStreamDuration env item =
     (case streamDuration item of
        None \<Rightarrow> None
      | Some d \<Rightarrow>
          if (case start item of None \<Rightarrow> 0 | Some s \<Rightarrow> s) + d + constants_SLACK env < duration item
          then Some d else None)"

text \<open>
  \<open>play\<close> (lines 47-190): the outcome, the player and the world. A throw leaves the
  assignments made before it in place.
\<close>

definition jellyfin_play ::
  "jellyfin_env \<Rightarrow> JellyfinPlayer \<times> jf_world \<Rightarrow> play_outcome \<times> JellyfinPlayer \<times> jf_world" where
  "jellyfin_play env pw =
     (let p = fst pw; w = snd pw; item = lineupItem (context' p) in
      if \<not> isContentBackedLineupIteam item then (PlayThrows, p, w)
      else
      (case findServer env (externalSourceId item) of
         None \<Rightarrow> (PlayThrows, p, w)
       | Some server \<Rightarrow>
         (let f = nextId w;
              p1 = p\<lparr>ffmpeg := Some f\<rparr>;
              w1 = w\<lparr>nextId := Suc f\<rparr>;
              streamDuration' = effectiveStreamDuration env item
          in case getStream env item of
               None \<Rightarrow> (PlayReturns None, p1, w1)
             | Some stream0 \<Rightarrow>
               if killed p1 then (PlayReturns None, p1, w1)
               else
               (let stream = (case streamDetails stream0 of
                                None \<Rightarrow> stream0
                              | Some details \<Rightarrow>
                                  stream0\<lparr>streamDetails :=
                                    Some (details\<lparr>sd_duration := streamDuration item\<rparr>)\<rparr>);
                    emitter = nextId w1;
                    w2 = w1\<lparr>nextId := Suc emitter,
                            spawnStreamCalls := spawnStreamCalls w1 @
                              [\<lparr>sp_ffmpeg = f, sp_streamUrl = streamUrl stream,
                                sp_streamDetails = streamDetails stream,
                                sp_startTime_ms = (case start item of None \<Rightarrow> 0 | Some s \<Rightarrow> s),
                                sp_duration_ms = streamDuration',
                                sp_token = accessToken server\<rparr>]\<rparr>
                in if \<not> spawnStreamReturns env then (PlayThrows, p1, w2)
                   else
                   (let out = nextId w2;
                        p2 = p1\<lparr>ffmpegOutStream := Some out\<rparr>;
                        w3 = w2\<lparr>nextId := Suc out, piped := piped w2 @ [(out, False)]\<rparr>;
                        task = nextId w3;
                        p3 = (if updatePlayStatus env
                              then p2\<lparr>updatePlayStatusTask := Some task\<rparr> else p2);
                        w4 = (if updatePlayStatus env
                              then w3\<lparr>nextId := Suc task,
                                      scheduledTasks := scheduledTasks w3 @ [task]\<rparr>
                              else w3);
                        w5 = w4\<lparr>listeners := listeners w4 @
                               [(f, OnEnd, EmitEnd emitter), (f, OnClose, EmitClose emitter),
                                (f, OnError, ReplaceFailed emitter stream)]\<rparr>
                    in (PlayReturns (Some emitter), p3, w5))))))"

text \<open>
  One listener runs. \<open>ReplaceFailed\<close> is the body of lines 157-187; a \<open>spawnError\<close> that
  returns undefined is assigned to \<open>ffmpegOutStream\<close> before the throw that the \<open>catch\<close> logs.
  \<open>ffmpegOutStream!.unpipe\<close> on an undefined stream throws out of the listener; the state is
  then left as it is.
\<close>

fun run_handler ::
  "jellyfin_env \<Rightarrow> handler \<Rightarrow> ffevent \<Rightarrow> JellyfinPlayer \<times> jf_world \<Rightarrow> JellyfinPlayer \<times> jf_world" where
  "run_handler env (EmitEnd emitter) ev (p, w) = (p, w\<lparr>emitted := emitted w @ [(emitter, EvEnd)]\<rparr>)"
| "run_handler env (EmitClose emitter) ev (p, w) = (p, w\<lparr>emitted := emitted w @ [(emitter, EvClose)]\<rparr>)"
| "run_handler env (EmitError emitter) ev (p, w) = (p, w\<lparr>emitted := emitted w @ [(emitter, ev)]\<rparr>)"
| "run_handler env (ReplaceFailed emitter stream) ev (p, w) =
     (case ffmpegOutStream p of
        None \<Rightarrow> (p, w)
      | Some failed \<Rightarrow>
          (let w1 = w\<lparr>piped := filter (\<lambda>s. fst s \<noteq> failed) (piped w)\<rparr>;
               w2 = (case ffmpeg p of
                       None \<Rightarrow> w1
                     | Some old \<Rightarrow> w1\<lparr>listeners := filter (\<lambda>l. fst l \<noteq> old) (listeners w1)\<rparr>);
               f = nextId w2;
               p1 = p\<lparr>ffmpeg := Some f\<rparr>;
               w3 = w2\<lparr>nextId := Suc f,
                       listeners := listeners w2 @
                         [(f, OnClose, EmitClose emitter), (f, OnEnd, EmitEnd emitter),
                          (f, OnError, EmitError emitter)],
                       spawnErrorCalls := spawnErrorCalls w2 @
                         [(f, ''oops'', ''oops'',
                           min (case streamDetails stream of
                                  None \<Rightarrow> 30000
                                | Some details \<Rightarrow>
                                    (case sd_duration details of None \<Rightarrow> 30000 | Some d \<Rightarrow> d))
                               60000)]\<rparr>;
               out = nextId w3;
               p2 = (if spawnErrorReturns env then p1\<lparr>ffmpegOutStream := Some out\<rparr>
                     else p1\<lparr>ffmpegOutStream := None\<rparr>);
               w4 = (if spawnErrorReturns env
                     then w3\<lparr>nextId := Suc out, piped := piped w3 @ [(out, True)]\<rparr>
                     else w3)
           in (p2, w4\<lparr>emitted := emitted w4 @ [(emitter, ev)]\<rparr>)))"

text \<open>
  The \<open>FFMPEG\<close> object \<open>f\<close> emits an event: the listeners registered on it for that event
  at the time of the emit run in the order of their registration.
\<close>

definition ffmpeg_emit ::
  "jellyfin_env \<Rightarrow> nat \<Rightarrow> ffevent \<Rightarrow> JellyfinPlayer \<times> jf_world \<Rightarrow> JellyfinPlayer \<times> jf_world" where
  "ffmpeg_emit env f ev pw =
     foldl (\<lambda>s h. run_handler env h ev s) pw
       (map (\<lambda>l. snd (snd l))
          (filter (\<lambda>l. fst l = f \<and> fst (snd l) = event_name_of ev) (listeners (snd pw))))"

text \<open>\<open>new JellyfinPlayer(context)\<close>, and a world in which nothing has happened yet.\<close>

definition newJellyfinPlayer :: "player_context \<Rightarrow> JellyfinPlayer" where
  "newJellyfinPlayer ctx =
     \<lparr>context' = ctx, ffmpeg = None, killed = False, updatePlayStatusTask = None,
      ffmpegOutStream = None\<rparr>"

definition emptyWorld :: jf_world where
  "emptyWorld =
     \<lparr>nextId = 0, listeners = [], piped = [], spawnStreamCalls = [], spawnErrorCalls = [],
      killCalls = [], scheduledTasks = [], taskStopCalls = [], emitted = []\<rparr>"

section \<open>A small installation, for concrete runs\<close>

text \<open>
  Five channels: \<open>A\<close> redirects to \<open>B\<close> (slots of 5 minutes), \<open>B\<close> plays a 20 minute
  programme, \<open>C\<close> redirects to itself, \<open>F\<close> has a single offline slot of 5 seconds and \<open>G\<close> an
  offline slot of 5 seconds followed by a 30 minute programme. Every channel starts
  cycling at time 0; before that the calculator answers with flex time up to the start and
  slot index -1. \<open>ex_createLineupItem\<close> starts a programme from its beginning when less than
  30 seconds of it have elapsed, and reports the skipped time as \<open>beginningOffset\<close>.
\<close>

definition ex_channel :: "string \<Rightarrow> Channel" where
  "ex_channel u = \<lparr>uuid = u, name = u, number = 1\<rparr>"

definition ex_redirect :: "string \<Rightarrow> lineup_item" where
  "ex_redirect target = (createOfflineStreamLineupIteam 300000)\<lparr>itype := Redirect, channel := target\<rparr>"

definition ex_content :: "int \<Rightarrow> lineup_item" where
  "ex_content d =
     \<lparr>itype = Program, title = Some ''Feature'', error = None, duration = d, start = None,
      streamDuration = None, beginningOffset = None, channel = [],
      externalSourceId = ''jellyfin-1'', externalKey = ''item-42''\<rparr>"

definition ex_lineup :: "string \<Rightarrow> Lineup" where
  "ex_lineup u =
     (if u = ''A'' then \<lparr>items = [ex_redirect ''B'']\<rparr>
      else if u = ''B'' then \<lparr>items = [ex_content 1200000]\<rparr>
      else if u = ''C'' then \<lparr>items = [ex_redirect ''C'']\<rparr>
      else if u = ''F'' then \<lparr>items = [createOfflineStreamLineupIteam 5000]\<rparr>
      else if u = ''G'' then \<lparr>items = [createOfflineStreamLineupIteam 5000, ex_content 1800000]\<rparr>
      else \<lparr>items = []\<rparr>)"

definition ex_known :: "string \<Rightarrow> bool" where
  "ex_known u = (u = ''A'' \<or> u = ''B'' \<or> u = ''C'' \<or> u = ''F'' \<or> u = ''G'')"

definition ex_resolve :: "int \<Rightarrow> Channel \<Rightarrow> Lineup \<Rightarrow> current_program option" where
  "ex_resolve t ch lu =
     (if t < 0 then
        Some \<lparr>program = createOfflineStreamLineupIteam (- t), timeElapsed = 0, programIndex = - 1\<rparr>
      else if uuid ch = ''A'' then
        Some \<lparr>program = ex_redirect ''B'', timeElapsed = t mod 300000, programIndex = 0\<rparr>
      else if uuid ch = ''B'' then
        Some \<lparr>program = ex_content 1200000, timeElapsed = t mod 1200000, programIndex = 0\<rparr>
      else if uuid ch = ''C'' then
        Some \<lparr>program = ex_redirect ''C'', timeElapsed = t mod 300000, programIndex = 0\<rparr>
      else if uuid ch = ''F'' then
        Some \<lparr>program = createOfflineStreamLineupIteam 5000, timeElapsed = t mod 5000,
              programIndex = 0\<rparr>
      else if uuid ch = ''G'' then
        (if t mod 1805000 < 5000 then
           Some \<lparr>program = createOfflineStreamLineupIteam 5000, timeElapsed = t mod 1805000,
                 programIndex = 0\<rparr>
         else
           Some \<lparr>program = ex_content 1800000, timeElapsed = t mod 1805000 - 5000,
                 programIndex = 1\<rparr>)
      else None)"

definition ex_createLineupItem :: "current_program \<Rightarrow> Channel \<Rightarrow> lineup_item" where
  "ex_createLineupItem cp ch =
     (let from = (if timeElapsed cp < 30000 then 0 else timeElapsed cp)
      in (program cp)\<lparr>start := Some from,
                      streamDuration := Some (duration (program cp) - from),
                      beginningOffset := Some (timeElapsed cp - from)\<rparr>)"

definition ex_env :: server_ctx where
  "ex_env =
     \<lparr>getChannel = (\<lambda>r. if ex_known r then Some (ex_channel r) else None),
      loadLineup = ex_lineup,
      loadChannelAndLineup = (\<lambda>u. if ex_known u then Some (ex_channel u, ex_lineup u) else None),
      ffmpegExecutablePath = ''/usr/bin/ffmpeg'',
      fileExists = (\<lambda>p. p = ''/usr/bin/ffmpeg''),
      getCurrentProgramAndTimeElapsed = ex_resolve,
      createLineupItem = ex_createLineupItem,
      wereThereTooManyAttempts = (\<lambda>session item. session = 7),
      SLACK = 9999,
      play = (\<lambda>ctx. PlayReturns (Some 0))\<rparr>"

definition ex_state :: server_state where
  "ex_state =
     \<lparr>channelCache = (\<lambda>k. None), calls = [], played = [], cleanUps = 0, stopped = False,
      outStreamEnded = False\<rparr>"

definition ex_req :: "string \<Rightarrow> stream_query" where
  "ex_req c = \<lparr>req_channel = Some c, req_session = None, req_m3u8 = None, req_audioOnly = False\<rparr>"

text \<open>
  A Jellyfin source that answers, and one whose stream negotiation fails.
\<close>

definition ex_jellyfin :: jellyfin_env where
  "ex_jellyfin =
     \<lparr>findServer = (\<lambda>n. if n = ''jellyfin-1'' then Some \<lparr>accessToken = ''secret''\<rparr> else None),
      getStream = (\<lambda>item. Some \<lparr>streamUrl = ''http://jellyfin/Videos/item-42/stream'',
                                 streamDetails = Some \<lparr>sd_duration = None\<rparr>\<rparr>),
      spawnStreamReturns = True, spawnErrorReturns = True, updatePlayStatus = True,
      constants_SLACK = 9999\<rparr>"

definition ex_jellyfin_unreachable :: jellyfin_env where
  "ex_jellyfin_unreachable = ex_jellyfin\<lparr>getStream := (\<lambda>item. None)\<rparr>"

definition ex_item :: lineup_item where
  "ex_item = (ex_content 1200000)\<lparr>start := Some 0, streamDuration := Some 120000,
                                   beginningOffset := Some 0\<rparr>"

definition ex_context :: player_context where
  "ex_context = \<lparr>lineupItem = ex_item, ctx_channel = ex_channel ''B'', m3u8 = False,
                  audioOnly = False\<rparr>"

text \<open>
  Modelled from the spec: the Player Supervisor (\<open>ProgramPlayer\<close>, not among the files verified
  here) selects the backend variant by the source of the item (spec 4.5 and 9); for an item
  of a Jellyfin source it creates a \<open>JellyfinPlayer\<close>, and its \<open>play\<close> returns what the
  variant's \<open>play\<close> returns.
\<close>

definition playWith :: "jellyfin_env \<Rightarrow> player_context \<Rightarrow> play_outcome" where
  "playWith env ctx = fst (jellyfin_play env (newJellyfinPlayer ctx, emptyWorld))"

section \<open>Properties\<close>

declare startStream.simps [simp del]

subsection \<open>The trace of invocations\<close>

lemma calls_recordPlayback: "calls (recordPlayback st c t i) = calls st"
  by (simp add: recordPlayback_def)

lemma calls_clearPlayback: "calls (clearPlayback st c) = calls st"
  by (simp add: clearPlayback_def)

lemma calls_foldl_clearPlayback: "calls (foldl clearPlayback st cs) = calls st"
  by (induction cs arbitrary: st) (simp_all add: calls_clearPlayback)

lemma calls_adjustUpperBounds:
  "calls (fst (adjustUpperBounds rcs ubs t b n st item ub)) = calls st"
  by (induction rcs ubs t b n st item ub rule: adjustUpperBounds.induct)
     (simp_all add: calls_recordPlayback Let_def split: option.splits)

lemma calls_stop: "calls (stop st) = calls st"
  by (simp add: stop_def)

lemma calls_finishStream:
  "calls (snd (finishStream env st req t ch ctx rcs ubs item)) = calls st"
  by (simp add: finishStream_def Let_def calls_recordPlayback calls_adjustUpperBounds calls_stop
      split: play_outcome.splits)

lemma walk_invariant_aux:
  "walk env t v = Some w \<Longrightarrow> P v \<Longrightarrow>
   (\<forall>u u'. P u \<longrightarrow> walk_body env t u = Continue u' \<longrightarrow> P u') \<Longrightarrow>
   (\<forall>u u'. P u \<longrightarrow> walk_body env t u = Exit u' \<longrightarrow> Q u') \<Longrightarrow> Q w"
proof (induction rule: walk.raw_induct[rotated 1, consumes 1])
  case (1 walk' env t v w)
  show ?case
  proof (cases "walk_body env t v")
    case (Continue v')
    with 1(2) have "walk' env t v' = Some w" by simp
    moreover have "P v'" using 1(3,4) Continue by blast
    ultimately show ?thesis using 1(1)[of env t v' w] 1(4,5) by blast
  next
    case (Exit v')
    with 1(2) have "v' = w" by simp
    with Exit 1(3,5) show ?thesis by blast
  qed
qed

lemma walk_invariant:
  assumes "walk env t v = Some w" and "P v"
    and "\<And>u u'. P u \<Longrightarrow> walk_body env t u = Continue u' \<Longrightarrow> P u'"
    and "\<And>u u'. P u \<Longrightarrow> walk_body env t u = Exit u' \<Longrightarrow> Q u'"
  shows "Q w"
  using walk_invariant_aux[OF assms(1), of P Q] assms(2-4) by blast

lemma walk_body_calls:
  "walk_body env t u = Continue u' \<or> walk_body env t u = Exit u' \<Longrightarrow>
   calls (w_state u') = calls (w_state u)"
  by (auto simp: walk_body_def Let_def calls_recordPlayback split: option.splits if_splits)

lemma calls_walk:
  assumes "walk env t (initialVars st cp ch) = Some w"
  shows "calls (w_state w) = calls st"
proof (rule walk_invariant[OF assms, where P = "\<lambda>u. calls (w_state u) = calls st"])
  show "calls (w_state (initialVars st cp ch)) = calls st"
    by (simp add: initialVars_def)
qed (use walk_body_calls in metis)+

lemma walk_body_currentProgram:
  "walk_body env t u = Continue u' \<or> walk_body env t u = Exit u' \<Longrightarrow>
   w_currentProgram u' = Some cp \<Longrightarrow>
   w_currentProgram u = Some cp \<or> cp = invalidRedirectProgram \<or>
   (\<exists>c l. getCurrentProgramAndTimeElapsed env t c l = Some cp)"
  by (auto simp: walk_body_def Let_def split: option.splits if_splits)

lemma walk_currentProgram:
  assumes "walk env t (initialVars st cp0 ch) = Some w" and "w_currentProgram w = Some cp"
  shows "cp0 = Some cp \<or> cp = invalidRedirectProgram \<or>
         (\<exists>c l. getCurrentProgramAndTimeElapsed env t c l = Some cp)"
proof -
  let ?P = "\<lambda>u. \<forall>p. w_currentProgram u = Some p \<longrightarrow>
              cp0 = Some p \<or> p = invalidRedirectProgram \<or>
              (\<exists>c l. getCurrentProgramAndTimeElapsed env t c l = Some p)"
  have "?P w"
  proof (rule walk_invariant[OF assms(1), where P = ?P])
    show "?P (initialVars st cp0 ch)" by (simp add: initialVars_def)
  qed (use walk_body_currentProgram in blast)+
  with assms(2) show ?thesis by blast
qed

lemma startStream_noskip_calls:
  assumes "startStream env st req ts False = Some (r, st')"
  shows "calls st' = calls st @ [(ts, False)]"
  using assms
  apply (subst (asm) startStream.simps)
  apply (auto simp: Let_def split: option.splits if_splits dest!: calls_walk)
  apply (metis calls_finishStream snd_conv)+
  done


lemma startStream_calls:
  assumes "startStream env st req ts allowSkip = Some (r, st')"
  shows "calls st' = calls st @ [(ts, allowSkip)] \<or>
         (allowSkip \<and>
          (\<exists>cp c l. getCurrentProgramAndTimeElapsed env ts c l = Some cp \<and>
             itype (program cp) = Offline \<and>
             duration (program cp) - timeElapsed cp \<le> SLACK env + 1 \<and>
             calls st' = calls st @ [(ts, True),
               (ts + (duration (program cp) - timeElapsed cp) + 1, False)]))"
proof (cases allowSkip)
  case False
  with assms show ?thesis by (simp add: startStream_noskip_calls)
next
  case True
  let ?st = "st\<lparr>calls := calls st @ [(ts, True)]\<rparr>"
  show ?thesis
  proof (cases "\<exists>ch w cp. req_channel req \<noteq> None \<and> getChannel env (the (req_channel req)) = Some ch \<and>
        fileExists env (ffmpegExecutablePath env) \<and>
        walk env ts
          (initialVars ?st (getCurrentProgramAndTimeElapsed env ts ch (loadLineup env (uuid ch))) ch) = Some w \<and>
        w_lineupItem w = None \<and> w_currentProgram w = Some cp \<and>
        \<not> (itype (program cp) = Offline \<and> length (items (loadLineup env (uuid ch))) = 1 \<and> programIndex cp \<noteq> - 1) \<and>
        itype (program cp) = Offline \<and> duration (program cp) - timeElapsed cp \<le> SLACK env + 1")
    case skip: True
    then obtain ch w cp where
      h: "req_channel req \<noteq> None" "getChannel env (the (req_channel req)) = Some ch"
         "fileExists env (ffmpegExecutablePath env)"
         "walk env ts
          (initialVars ?st (getCurrentProgramAndTimeElapsed env ts ch (loadLineup env (uuid ch))) ch) = Some w"
         "w_lineupItem w = None" "w_currentProgram w = Some cp"
         "\<not> (itype (program cp) = Offline \<and> length (items (loadLineup env (uuid ch))) = 1 \<and> programIndex cp \<noteq> - 1)"
         "itype (program cp) = Offline" "duration (program cp) - timeElapsed cp \<le> SLACK env + 1"
      by blast
    let ?dt = "duration (program cp) - timeElapsed cp"
    have rec: "startStream env st req ts True =
          startStream env (foldl clearPlayback (w_state w) (w_redirectChannels w)) req (ts + ?dt + 1) False"
      using h by (subst startStream.simps) (auto simp: Let_def)
    with assms True have "calls st' = calls (foldl clearPlayback (w_state w) (w_redirectChannels w)) @ [(ts + ?dt + 1, False)]"
      by (simp add: startStream_noskip_calls)
    moreover have "calls (w_state w) = calls st @ [(ts, True)]"
      using calls_walk[OF h(4)] by simp
    ultimately have c: "calls st' = calls st @ [(ts, True), (ts + ?dt + 1, False)]"
      by (simp add: calls_foldl_clearPlayback)
    have "cp \<noteq> invalidRedirectProgram"
      using h(8) by (auto simp: invalidRedirectProgram_def)
    with walk_currentProgram[OF h(4) h(6)]
    obtain c l where "getCurrentProgramAndTimeElapsed env ts c l = Some cp" by auto
    with c h True show ?thesis by blast
  next
    case noskip: False
    have "calls st' = calls st @ [(ts, True)]"
      using assms True noskip
      apply (subst (asm) startStream.simps)
      apply (auto simp: Let_def split: option.splits if_splits dest!: calls_walk)
      apply (metis calls_finishStream snd_conv)+
      done
    with True show ?thesis by simp
  qed
qed

subsection \<open>Skip-ahead\<close>

lemmas ex_defs = ex_env_def ex_state_def ex_req_def ex_known_def ex_channel_def ex_lineup_def
  ex_resolve_def ex_createLineupItem_def ex_redirect_def ex_content_def
  createOfflineStreamLineupIteam_def

lemma startStream_returns_aux:
  assumes "\<And>t s cp c. walk env t
          (initialVars s cp c) \<noteq> None"
    and "allowSkip \<Longrightarrow> (\<And>s q t. startStream env s q t False \<noteq> None)"
  shows "startStream env st req ts allowSkip \<noteq> None"
proof (cases "req_channel req")
  case None
  then show ?thesis by (subst startStream.simps) (simp add: Let_def)
next
  case (Some rc)
  show ?thesis
  proof (cases "getChannel env rc")
    case None
    with Some show ?thesis by (subst startStream.simps) (simp add: Let_def)
  next
    case ch: (Some ch)
    obtain w where w: "walk env ts
          (initialVars (st\<lparr>calls := calls st @ [(ts, allowSkip)]\<rparr>) (getCurrentProgramAndTimeElapsed env ts ch (loadLineup env (uuid ch))) ch) = Some w"
      using assms(1) by blast
    show ?thesis
    proof (cases allowSkip)
      case True
      with assms(2) have "startStream env s q t False \<noteq> None" for s q t by blast
      with Some ch w show ?thesis
        by (subst startStream.simps) (simp add: Let_def split: option.splits)
    next
      case False
      with Some ch w show ?thesis
        by (subst startStream.simps) (simp add: Let_def split: option.splits)
    qed
  qed
qed

lemma startStream_returns:
  assumes "\<And>t s cp c. walk env t
          (initialVars s cp c) \<noteq> None"
  shows "startStream env st req ts allowSkip \<noteq> None"
proof -
  have "startStream env s q t False \<noteq> None" for s q t
    using assms by (rule startStream_returns_aux) simp
  with assms show ?thesis
    by (rule startStream_returns_aux)
qed

text \<open>
  Claim C10. The trace of a request that returns holds the original invocation followed by
  at most one further invocation, and every further invocation was made with
  \<open>allowSkip = false\<close>; a request made with \<open>allowSkip = false\<close> makes none. So a single
  external request performs at most one skip-ahead hop, whatever the lineup and the
  timestamps are.
\<close>

theorem skip_ahead_passes_no_skip:
  assumes "startStream env st req ts allowSkip = Some (r, st')"
  shows "\<exists>rest. calls st' = calls st @ (ts, allowSkip) # rest \<and> length rest \<le> 1 \<and>
           (\<forall>c \<in> set rest. snd c = False) \<and> (\<not> allowSkip \<longrightarrow> rest = [])"
  using startStream_calls[OF assms] by auto


lemma ex_skip_run:
  "map_option (\<lambda>r. (fst r, calls (snd r))) (startStream ex_env ex_state (ex_req ''G'') 4000 True) =
     Some (Success, [(4000, True), (5001, False)])"
  by (simp add: startStream.simps walk.simps walk_body_def initialVars_def ex_defs Let_def finishStream_def
      recordPlayback_def getCurrentLineupItem_def)




theorem skip_ahead_passes_no_skip_witness:
  "\<exists>r st' rest. startStream ex_env ex_state (ex_req ''G'') 4000 True = Some (r, st') \<and>
     calls st' = calls ex_state @ (4000, True) # rest \<and> length rest \<le> 1 \<and>
     (\<forall>c \<in> set rest. snd c = False) \<and> (\<not> True \<longrightarrow> rest = [])"
proof -
  obtain r st' where run: "startStream ex_env ex_state (ex_req ''G'') 4000 True = Some (r, st')"
    using ex_skip_run by auto
  from skip_ahead_passes_no_skip[OF run] run
  show ?thesis by blast
qed

subsection \<open>Bounds of a redirect chain\<close>

lemma walk_body_lengths:
  "walk_body env t u = Continue u' \<or> walk_body env t u = Exit u' \<Longrightarrow>
   length (w_upperBounds u) = length (w_redirectChannels u) \<Longrightarrow>
   length (w_upperBounds u') = length (w_redirectChannels u')"
  by (auto simp: walk_body_def Let_def split: option.splits if_splits)

lemma walk_lengths:
  assumes "walk env t (initialVars st cp ch) = Some w"
  shows "length (w_upperBounds w) = length (w_redirectChannels w)"
proof (rule walk_invariant[OF assms,
      where P = "\<lambda>u. length (w_upperBounds u) = length (w_redirectChannels u)"])
  show "length (w_upperBounds (initialVars st cp ch)) = length (w_redirectChannels (initialVars st cp ch))"
    by (simp add: initialVars_def)
qed (use walk_body_lengths in blast)+

lemma adjustUpperBounds_item:
  "k \<le> length ubs \<Longrightarrow>
   snd (adjustUpperBounds rcs ubs ts bo k st item ub) =
     (if k = 0 then item
      else item\<lparr>streamDuration :=
             Some (Min (insert (case streamDuration item of None \<Rightarrow> ub | Some d \<Rightarrow> min ub d)
                          ((\<lambda>b. b + bo) ` set (take k ubs))))\<rparr>)"
proof (induction k arbitrary: st item ub)
  case 0
  then show ?case by simp
next
  case (Suc k)
  then have k: "k < length ubs" by simp
  let ?p = "case streamDuration item of None \<Rightarrow> ub | Some d \<Rightarrow> min ub d"
  let ?nd = "min (ubs ! k + bo) ?p"
  let ?item = "item\<lparr>streamDuration := Some ?nd\<rparr>"
  have step: "adjustUpperBounds rcs ubs ts bo (Suc k) st item ub =
      adjustUpperBounds rcs ubs ts bo k (recordPlayback st (rcs ! k) ts ?item) ?item ?nd"
    using k by (simp add: nth_opt_def Let_def)
  have set_take: "set (take (Suc k) ubs) = insert (ubs ! k) (set (take k ubs))"
    using k by (simp add: take_Suc_conv_app_nth)
  show ?case
  proof (cases "k = 0")
    case True
    with step k show ?thesis
      by (simp add: take_Suc_conv_app_nth min.commute)
  next
    case False
    then have ne: "(\<lambda>b. b + bo) ` set (take k ubs) \<noteq> {}"
      using k by (cases ubs) auto
    have "snd (adjustUpperBounds rcs ubs ts bo (Suc k) st item ub) =
        ?item\<lparr>streamDuration := Some (Min (insert ?nd ((\<lambda>b. b + bo) ` set (take k ubs))))\<rparr>"
      using Suc.IH[of "recordPlayback st (rcs ! k) ts ?item" ?item ?nd] k False step by simp
    moreover have "Min (insert ?nd ((\<lambda>b. b + bo) ` set (take k ubs))) =
        Min (insert ?p ((\<lambda>b. b + bo) ` set (take (Suc k) ubs)))"
      using ne by (simp add: set_take Min_insert min.assoc min.left_commute min.commute)
    ultimately show ?thesis by simp
  qed
qed


lemma adjustUpperBounds_cache_played:
  "played (fst (adjustUpperBounds rcs ubs ts bo k st item ub)) = played st"
  by (induction rcs ubs ts bo k st item ub rule: adjustUpperBounds.induct)
     (simp_all add: recordPlayback_def Let_def split: option.splits)

lemma finishStream_bounded:
  assumes "bounded = snd (adjustUpperBounds rcs ubs ts
             (case beginningOffset item of None \<Rightarrow> 0 | Some b \<Rightarrow> b) (length rcs) st item
             MAX_SAFE_INTEGER)"
    and "r = finishStream env st req ts ch ctx rcs ubs item"
  shows "channelCache (snd r) (uuid ch, ts) = Some bounded"
    and "played (snd r) = played st @
           [\<lparr>lineupItem = (if wereThereTooManyAttempts env
                                  (case req_session req of None \<Rightarrow> 0 | Some s \<Rightarrow> s) bounded
                             then throttledItem else bounded),
             ctx_channel = ctx,
             m3u8 = (case req_m3u8 req of None \<Rightarrow> False | Some b \<Rightarrow> b),
             audioOnly = req_audioOnly req\<rparr>]"
  using assms
  by (simp_all add: finishStream_def Let_def recordPlayback_def stop_def
      adjustUpperBounds_cache_played split: play_outcome.splits)

text \<open>
  Claim C5. If \<open>wereThereTooManyAttempts\<close> answers true for the session of the request
  (\<open>req.session ?? 0\<close>) and the resolved lineup item, the item of the context on which
  \<open>player.play\<close> is called is the synthetic item of lines 292-297: type \<open>error\<close>, message
  "Too many attempts, throttling", duration 60000 ms, start 0; whatever the resolved item
  was.
\<close>

theorem throttled_request_gets_error_item:
  assumes "wereThereTooManyAttempts env (case req_session req of None \<Rightarrow> 0 | Some s \<Rightarrow> s)
             (snd (adjustUpperBounds rcs ubs ts
                (case beginningOffset item of None \<Rightarrow> 0 | Some b \<Rightarrow> b) (length rcs) st item
                MAX_SAFE_INTEGER))"
  shows "map lineupItem (played (snd (finishStream env st req ts ch ctx rcs ubs item))) =
           map lineupItem (played st) @ [throttledItem] \<and>
         itype throttledItem = Error \<and>
         error throttledItem = Some ''Too many attempts, throttling'' \<and>
         duration throttledItem = 60000 \<and> start throttledItem = Some 0"
  using assms finishStream_bounded(2)[OF refl refl, of env st req ts ch ctx rcs ubs item]
  by (simp add: throttledItem_def)

theorem throttled_request_gets_error_item_witness:
  "wereThereTooManyAttempts ex_env 7 (ex_content 1200000) \<and>
   map lineupItem (played (snd (finishStream ex_env ex_state ((ex_req ''B'')\<lparr>req_session := Some 7\<rparr>) 0
       (ex_channel ''B'') (ex_channel ''B'') [] [] (ex_content 1200000)))) = [throttledItem]"
  using throttled_request_gets_error_item[of ex_env "(ex_req ''B'')\<lparr>req_session := Some 7\<rparr>"
      "[]" "[]" 0 "ex_content 1200000" ex_state "ex_channel ''B''" "ex_channel ''B''"]
  by (simp add: ex_env_def ex_state_def ex_req_def)

text \<open>
  Claim C1, amended. For a redirect chain with bounds \<open>ubs\<close> (one per hop, as
  \<open>walk_lengths\<close> guarantees), a final item with stream duration \<open>d\<close> (possibly absent) and
  beginning offset \<open>off\<close>, the loop of lines 240-261 sets the stream duration to the least of
  \<open>MAX_SAFE_INTEGER\<close>, of \<open>b + off\<close> over the hops and of \<open>d\<close> when present; that item is recorded
  for the requested channel and handed to the player unless the throttler intervenes. So
  the final duration is at most \<open>b + off\<close> for every hop (and at most \<open>d\<close>). It is at most
  every hop's bound \<open>b\<close> itself when \<open>off\<close> is 0, and then one hop with 2 minutes remaining
  and a 20 minute item gives 2 minutes. With a positive offset the duration can exceed a
  hop's remaining bound, by at most the offset.
\<close>

theorem redirect_bounds_propagation:
  assumes lens: "length ubs = length rcs" and hops: "rcs \<noteq> []"
    and off: "off = (case beginningOffset item of None \<Rightarrow> 0 | Some b \<Rightarrow> b)"
    and m: "m = Min (insert MAX_SAFE_INTEGER
                  ((\<lambda>b. b + off) ` set ubs \<union> set_option (streamDuration item)))"
    and r: "r = finishStream env st req ts ch ctx rcs ubs item"
  shows "channelCache (snd r) (uuid ch, ts) = Some (item\<lparr>streamDuration := Some m\<rparr>) \<and>
         (\<not> wereThereTooManyAttempts env (case req_session req of None \<Rightarrow> 0 | Some s \<Rightarrow> s)
              (item\<lparr>streamDuration := Some m\<rparr>) \<longrightarrow>
          map lineupItem (played (snd r)) =
            map lineupItem (played st) @ [item\<lparr>streamDuration := Some m\<rparr>]) \<and>
         (\<forall>b \<in> set ubs. m \<le> b + off) \<and>
         (\<forall>d. streamDuration item = Some d \<longrightarrow> m \<le> d) \<and>
         (off \<le> 0 \<longrightarrow> (\<forall>b \<in> set ubs. m \<le> b)) \<and>
         (ubs = [120000] \<and> off = 0 \<and> streamDuration item = Some 1200000 \<longrightarrow> m = 120000)"
proof -
  let ?S = "(\<lambda>b. b + off) ` set ubs \<union> set_option (streamDuration item)"
  have fin: "finite (insert MAX_SAFE_INTEGER ?S)" by simp
  have n: "length rcs \<noteq> 0" "length rcs \<le> length ubs" using lens hops by simp_all
  have "Min (insert (case streamDuration item of None \<Rightarrow> MAX_SAFE_INTEGER
                     | Some d \<Rightarrow> min MAX_SAFE_INTEGER d) ((\<lambda>b. b + off) ` set ubs)) = m"
  proof (cases "streamDuration item")
    case None
    then show ?thesis by (simp add: m)
  next
    case (Some d)
    have ne: "(\<lambda>b. b + off) ` set ubs \<noteq> {}" using lens hops by auto
    then show ?thesis
      by (simp add: m Some Min_insert min.assoc min.left_commute)
  qed
  then have b: "snd (adjustUpperBounds rcs ubs ts off (length rcs) st item MAX_SAFE_INTEGER) =
      item\<lparr>streamDuration := Some m\<rparr>"
    using adjustUpperBounds_item[OF n(2), of rcs ts off st item MAX_SAFE_INTEGER] n(1) lens
    by simp
  have c1: "channelCache (snd r) (uuid ch, ts) = Some (item\<lparr>streamDuration := Some m\<rparr>)"
    using finishStream_bounded(1)[OF refl r] b off by simp
  have c2: "\<not> wereThereTooManyAttempts env (case req_session req of None \<Rightarrow> 0 | Some s \<Rightarrow> s)
              (item\<lparr>streamDuration := Some m\<rparr>) \<Longrightarrow>
          map lineupItem (played (snd r)) =
            map lineupItem (played st) @ [item\<lparr>streamDuration := Some m\<rparr>]"
    using finishStream_bounded(2)[OF refl r] b off by simp
  have c3: "m \<le> b + off" if "b \<in> set ubs" for b
    unfolding m using that fin by (intro Min_le) auto
  have c4: "m \<le> d" if "streamDuration item = Some d" for d
    unfolding m using that fin by (intro Min_le) auto
  have c5: "m \<le> b" if "off \<le> 0" "b \<in> set ubs" for b
    using c3[OF that(2)] that(1) by simp
  have c6: "m = 120000" if "ubs = [120000]" "off = 0" "streamDuration item = Some 1200000"
    using that by (simp add: m MAX_SAFE_INTEGER_def)
  from c1 c2 c3 c4 c5 c6 show ?thesis by blast
qed

theorem redirect_bounds_propagation_witness:
  "channelCache (snd (finishStream ex_env ex_state (ex_req ''A'') 180000 (ex_channel ''A'')
       (ex_channel ''B'') [''A''] [120000]
       ((ex_content 1200000)\<lparr>start := Some 0, streamDuration := Some 1200000,
                              beginningOffset := Some 0\<rparr>))) (''A'', 180000) =
     Some ((ex_content 1200000)\<lparr>start := Some 0, streamDuration := Some 120000,
                                beginningOffset := Some 0\<rparr>)"
proof -
  let ?item = "(ex_content 1200000)\<lparr>start := Some 0, streamDuration := Some 1200000,
                              beginningOffset := Some 0\<rparr>"
  have m: "(120000::int) = Min (insert MAX_SAFE_INTEGER
                  ((\<lambda>b. b + 0) ` set [120000] \<union> set_option (streamDuration ?item)))"
    by (simp add: MAX_SAFE_INTEGER_def)
  have "length [120000::int] = length [''A'']" "[''A''] \<noteq> []"
    "(0::int) = (case beginningOffset ?item of None \<Rightarrow> 0 | Some b \<Rightarrow> b)"
    by simp_all
  from redirect_bounds_propagation[OF this m refl, of ex_env ex_state "ex_req ''A''" 180000
      "ex_channel ''A''" "ex_channel ''B''"]
  show ?thesis by (simp add: ex_channel_def)
qed

text \<open>
  The claim as first stated (the final duration never exceeds a hop's remaining bound)
  fails: at time 1210000 channel \<open>A\<close> has 290000 ms left in its redirect slot, the programme
  of \<open>B\<close> is played from its beginning with offset 10000, and the final stream duration is
  300000 ms.
\<close>

theorem redirect_bound_exceeded_counterexample:
  "w_upperBounds (the (walk ex_env 1210000
          (initialVars (ex_state\<lparr>calls := [(1210000, False)]\<rparr>) (ex_resolve 1210000 (ex_channel ''A'') (ex_lineup ''A'')) (ex_channel ''A'')))) =
     [290000] \<and>
   map (streamDuration \<circ> lineupItem)
     (played (snd (the (startStream ex_env ex_state (ex_req ''A'') 1210000 False)))) =
     [Some 300000]"
  by (simp add: startStream.simps walk.simps walk_body_def initialVars_def ex_defs Let_def finishStream_def
      recordPlayback_def getCurrentLineupItem_def nth_opt_def MAX_SAFE_INTEGER_def deepCopy_def)

subsection \<open>Offline policy\<close>




subsection \<open>Redirect cycles\<close>

lemma redirectsInto_mono: "redirectsInto env ts c S \<Longrightarrow> S \<subseteq> T \<Longrightarrow> redirectsInto env ts c T"
  unfolding redirectsInto_def by blast

lemma cache_prefix_step:
  assumes "\<forall>c item. channelCache st (c, ts) = Some item \<longrightarrow>
         (\<exists>n. 0 < n \<and> n \<le> length rcs \<and> item = recursiveRedirectItem (take n rcs))"
    and "st' = st \<or> st' = recordPlayback st x ts (recursiveRedirectItem (rcs @ [x]))"
  shows "\<forall>c item. channelCache st' (c, ts) = Some item \<longrightarrow>
         (\<exists>n. 0 < n \<and> n \<le> length (rcs @ [x]) \<and> item = recursiveRedirectItem (take n (rcs @ [x])))"
proof (intro allI impI)
  fix c item assume h: "channelCache st' (c, ts) = Some item"
  show "\<exists>n. 0 < n \<and> n \<le> length (rcs @ [x]) \<and> item = recursiveRedirectItem (take n (rcs @ [x]))"
  proof (cases "channelCache st (c, ts) = Some item")
    case True
    with assms(1) obtain n where "0 < n" "n \<le> length rcs" "item = recursiveRedirectItem (take n rcs)"
      by blast
    then show ?thesis by (intro exI[of _ n]) simp
  next
    case False
    with h assms(2) have "item = recursiveRedirectItem (rcs @ [x])"
      by (auto simp: recordPlayback_def split: if_splits)
    then show ?thesis by (intro exI[of _ "length (rcs @ [x])"]) simp
  qed
qed

lemma walk_body_Continue_cases:
  assumes "walk_body env ts v = Continue v'"
  obtains (unknown) cp st' where
      "w_currentProgram v = Some cp" "itype (program cp) = Redirect"
      "loadChannelAndLineup env (channel (program cp)) = None"
      "st' = w_state v \<or> st' = recordPlayback (w_state v) (uuid (w_channelContext v)) ts
               (recursiveRedirectItem (w_redirectChannels v @ [uuid (w_channelContext v)]))"
      "v' = v\<lparr>w_state := st', w_currentProgram := Some invalidRedirectProgram,
              w_redirectChannels := w_redirectChannels v @ [uuid (w_channelContext v)],
              w_upperBounds := w_upperBounds v @ [duration (program cp) - timeElapsed cp]\<rparr>"
  | (loaded) cp st' ch lu where
      "w_currentProgram v = Some cp" "itype (program cp) = Redirect"
      "loadChannelAndLineup env (channel (program cp)) = Some (ch, lu)"
      "st' = w_state v \<or> st' = recordPlayback (w_state v) (uuid (w_channelContext v)) ts
               (recursiveRedirectItem (w_redirectChannels v @ [uuid (w_channelContext v)]))"
      "channelCache st' (uuid ch, ts) = None"
      "v' = v\<lparr>w_state := st', w_lineupItem := None,
              w_currentProgram := getCurrentProgramAndTimeElapsed env ts ch lu,
              w_channelContext := ch,
              w_redirectChannels := w_redirectChannels v @ [uuid (w_channelContext v)],
              w_upperBounds := w_upperBounds v @ [duration (program cp) - timeElapsed cp]\<rparr>"
proof -
  from assms obtain cp where cp: "w_currentProgram v = Some cp" "itype (program cp) = Redirect"
    by (auto simp: walk_body_def split: option.splits if_splits)
  let ?st' = "if channel (program cp) \<in> set (w_redirectChannels v @ [uuid (w_channelContext v)])
      then recordPlayback (w_state v) (uuid (w_channelContext v)) ts
               (recursiveRedirectItem (w_redirectChannels v @ [uuid (w_channelContext v)]))
      else w_state v"
  have st: "?st' = w_state v \<or> ?st' = recordPlayback (w_state v) (uuid (w_channelContext v)) ts
               (recursiveRedirectItem (w_redirectChannels v @ [uuid (w_channelContext v)]))"
    by simp
  show ?thesis
  proof (cases "loadChannelAndLineup env (channel (program cp))")
    case None
    with assms cp have "v' = v\<lparr>w_state := ?st', w_currentProgram := Some invalidRedirectProgram,
              w_redirectChannels := w_redirectChannels v @ [uuid (w_channelContext v)],
              w_upperBounds := w_upperBounds v @ [duration (program cp) - timeElapsed cp]\<rparr>"
      by (simp add: walk_body_def Let_def)
    with cp None st show ?thesis by (rule unknown)
  next
    case (Some n)
    obtain ch lu where n: "n = (ch, lu)" by (cases n)
    from assms cp Some n have miss: "channelCache ?st' (uuid ch, ts) = None"
      by (auto simp: walk_body_def Let_def getCurrentLineupItem_def split: option.splits)
    with assms cp Some n have "v' = v\<lparr>w_state := ?st', w_lineupItem := None,
              w_currentProgram := getCurrentProgramAndTimeElapsed env ts ch lu,
              w_channelContext := ch,
              w_redirectChannels := w_redirectChannels v @ [uuid (w_channelContext v)],
              w_upperBounds := w_upperBounds v @ [duration (program cp) - timeElapsed cp]\<rparr>"
      by (auto simp: walk_body_def Let_def getCurrentLineupItem_def split: option.splits)
    with cp Some n st miss show ?thesis by (intro loaded[of cp ch lu ?st']) simp_all
  qed
qed

lemma walkInv_step:
  assumes db: "\<forall>c ch lu. loadChannelAndLineup env c = Some (ch, lu) \<longrightarrow> uuid ch = c"
    and inv: "walkInv env ts origin v"
    and step: "walk_body env ts v = Continue v'"
  shows "walkInv env ts origin v'"
  using step
proof (cases rule: walk_body_Continue_cases)
  case (unknown cp st')
  let ?x = "uuid (w_channelContext v)"
  have cache: "\<forall>c item. channelCache st' (c, ts) = Some item \<longrightarrow>
         (\<exists>n. 0 < n \<and> n \<le> length (w_redirectChannels v @ [?x]) \<and>
            item = recursiveRedirectItem (take n (w_redirectChannels v @ [?x])))"
    using inv unknown(4) by (intro cache_prefix_step) (auto simp: walkInv_def)
  have "hd ((w_redirectChannels v @ [?x]) @ [?x]) = origin"
    using inv by (cases "w_redirectChannels v") (auto simp: walkInv_def)
  with cache inv unknown show ?thesis
    by (simp add: walkInv_def invalidRedirectProgram_def)
next
  case (loaded cp st' ch lu)
  let ?x = "uuid (w_channelContext v)"
  let ?rcs = "w_redirectChannels v"
  have cache: "\<forall>c item. channelCache st' (c, ts) = Some item \<longrightarrow>
         (\<exists>n. 0 < n \<and> n \<le> length (?rcs @ [?x]) \<and>
            item = recursiveRedirectItem (take n (?rcs @ [?x])))"
    using inv loaded(4) by (intro cache_prefix_step) (auto simp: walkInv_def)
  have hd: "hd ((?rcs @ [?x]) @ [uuid ch]) = origin"
    using inv by (cases ?rcs) (auto simp: walkInv_def)
  have uu: "uuid ch = channel (program cp)" using db loaded(3) by blast
  from inv loaded(1,2) obtain lu0 where
    cur: "loadChannelAndLineup env ?x = Some (w_channelContext v, lu0)"
      "getCurrentProgramAndTimeElapsed env ts (w_channelContext v) lu0 = Some cp"
    and hist: "\<forall>c \<in> set ?rcs. redirectsInto env ts c (set ?rcs \<union> {?x})"
    by (auto simp: walkInv_def)
  have x: "redirectsInto env ts ?x (set (?rcs @ [?x]) \<union> {uuid ch})"
    unfolding redirectsInto_def using cur loaded(2) uu by auto
  have old: "redirectsInto env ts c (set (?rcs @ [?x]) \<union> {uuid ch})" if "c \<in> set ?rcs" for c
    using hist that by (auto intro: redirectsInto_mono)
  have closed: "\<forall>c \<in> set (?rcs @ [?x]). redirectsInto env ts c (set (?rcs @ [?x]) \<union> {uuid ch})"
    using x old by auto
  have ld: "loadChannelAndLineup env (uuid ch) = Some (ch, lu)"
    using loaded(3) uu by simp
  show ?thesis
    unfolding walkInv_def loaded(6)
    using cache hd closed ld loaded(5) by simp
qed

lemma walk_in_cycle_returns:
  assumes db: "\<forall>c ch lu. loadChannelAndLineup env c = Some (ch, lu) \<longrightarrow> uuid ch = c"
  shows "walkInv env ts origin v \<Longrightarrow> cycleFound v \<Longrightarrow>
         \<exists>w n. walk env ts v = Some w \<and> 0 < n \<and> n \<le> length (w_redirectChannels w) \<and>
           hd (w_redirectChannels w) = origin \<and>
           w_lineupItem w = Some (recursiveRedirectItem (take n (w_redirectChannels w)))"
proof (induction "card (unpoisoned ts v)" arbitrary: v rule: less_induct)
  case less
  let ?x = "uuid (w_channelContext v)"
  let ?rcs = "w_redirectChannels v"
  let ?rcs' = "?rcs @ [?x]"
  from less.prems(2) obtain cp where cp: "w_currentProgram v = Some cp"
    "itype (program cp) = Redirect" "channel (program cp) \<in> set ?rcs'"
    by (auto simp: cycleFound_def split: option.splits)
  let ?y = "channel (program cp)"
  let ?st' = "recordPlayback (w_state v) ?x ts (recursiveRedirectItem ?rcs')"
  from less.prems(1) cp obtain lu0 where
    fresh_x: "channelCache (w_state v) (?x, ts) = None"
    and cur: "loadChannelAndLineup env ?x = Some (w_channelContext v, lu0)"
      "getCurrentProgramAndTimeElapsed env ts (w_channelContext v) lu0 = Some cp"
    and hist: "\<forall>c \<in> set ?rcs. redirectsInto env ts c (set ?rcs \<union> {?x})"
    and cache: "\<forall>c item. channelCache (w_state v) (c, ts) = Some item \<longrightarrow>
         (\<exists>n. 0 < n \<and> n \<le> length ?rcs \<and> item = recursiveRedirectItem (take n ?rcs))"
    and hd: "hd ?rcs' = origin"
    by (auto simp: walkInv_def)
  have "redirectsInto env ts ?y (set ?rcs')"
  proof (cases "?y = ?x")
    case True
    with cur cp show ?thesis unfolding redirectsInto_def by auto
  next
    case False
    with cp(3) hist show ?thesis by auto
  qed
  then obtain ch lu cpy where y: "loadChannelAndLineup env ?y = Some (ch, lu)"
    "getCurrentProgramAndTimeElapsed env ts ch lu = Some cpy"
    "itype (program cpy) = Redirect" "channel (program cpy) \<in> set ?rcs'"
    unfolding redirectsInto_def by blast
  have uu: "uuid ch = ?y" using db y(1) by blast
  have cache': "\<forall>c item. channelCache ?st' (c, ts) = Some item \<longrightarrow>
         (\<exists>n. 0 < n \<and> n \<le> length ?rcs' \<and> item = recursiveRedirectItem (take n ?rcs'))"
    using cache by (intro cache_prefix_step) auto
  have hd': "hd ?rcs' = origin" by (rule hd)
  show ?case
  proof (cases "channelCache ?st' (?y, ts)")
    case (Some item)
    let ?w = "v\<lparr>w_state := ?st', w_lineupItem := Some (deepCopy item),
                w_channelContext := ch, w_redirectChannels := ?rcs',
                w_upperBounds := w_upperBounds v @ [duration (program cp) - timeElapsed cp]\<rparr>"
    have "walk_body env ts v = Exit ?w"
      using cp y(1) uu Some by (simp add: walk_body_def Let_def getCurrentLineupItem_def)
    then have w: "walk env ts v = Some ?w" by (subst walk.simps) simp
    from cache' Some obtain n where "0 < n" "n \<le> length ?rcs'"
      "item = recursiveRedirectItem (take n ?rcs')" by blast
    with w hd' show ?thesis
      by (intro exI[of _ ?w] exI[of _ n]) (simp add: deepCopy_def)
  next
    case None
    let ?v' = "v\<lparr>w_state := ?st', w_lineupItem := None,
                w_currentProgram := getCurrentProgramAndTimeElapsed env ts ch lu,
                w_channelContext := ch, w_redirectChannels := ?rcs',
                w_upperBounds := w_upperBounds v @ [duration (program cp) - timeElapsed cp]\<rparr>"
    have body: "walk_body env ts v = Continue ?v'"
      using cp y(1) uu None by (simp add: walk_body_def Let_def getCurrentLineupItem_def)
    then have w: "walk env ts v = walk env ts ?v'" by (subst walk.simps) simp
    have inv': "walkInv env ts origin ?v'"
      using walkInv_step[OF db less.prems(1) body] .
    have cyc': "cycleFound ?v'"
      using y by (auto simp: cycleFound_def)
    have ynx: "?y \<noteq> ?x" using None by (auto simp: recordPlayback_def)
    then have yin: "?y \<in> set ?rcs" using cp(3) by auto
    have "unpoisoned ts ?v' = unpoisoned ts v - {?x}"
      using yin uu by (auto simp: unpoisoned_def recordPlayback_def split: if_splits)
    moreover have "?x \<in> unpoisoned ts v" using fresh_x by (simp add: unpoisoned_def)
    moreover have "finite (unpoisoned ts v)" by (simp add: unpoisoned_def)
    ultimately have "card (unpoisoned ts ?v') < card (unpoisoned ts v)"
      using card_Diff1_less[of "unpoisoned ts v" ?x] by simp
    from less.hyps[OF this inv' cyc'] w show ?thesis by simp
  qed
qed

lemma walk_after_iterations:
  "(\<lambda>u u'. walk_body env ts u = Continue u')\<^sup>*\<^sup>* v0 v \<Longrightarrow> walk env ts v0 = walk env ts v"
proof (induction rule: rtranclp_induct)
  case base
  show ?case by simp
next
  case (step u u')
  have "walk env ts u = walk env ts u'"
    using step.hyps(2) by (subst walk.simps) simp
  with step.IH show ?case by simp
qed

lemma walkInv_after_iterations:
  assumes db: "\<forall>c ch lu. loadChannelAndLineup env c = Some (ch, lu) \<longrightarrow> uuid ch = c"
  shows "(\<lambda>u u'. walk_body env ts u = Continue u')\<^sup>*\<^sup>* v0 v \<Longrightarrow> walkInv env ts origin v0 \<Longrightarrow>
         walkInv env ts origin v"
  by (induction rule: rtranclp_induct) (auto intro: walkInv_step[OF db])

lemma walkInv_initial:
  assumes "\<And>c. channelCache st (c, ts) = None"
    and "loadChannelAndLineup env (uuid ch0) = Some (ch0, loadLineup env (uuid ch0))"
  shows "walkInv env ts (uuid ch0)
           (initialVars st (getCurrentProgramAndTimeElapsed env ts ch0 (loadLineup env (uuid ch0))) ch0)"
  using assms by (simp add: walkInv_def initialVars_def)

lemma adjustUpperBounds_keeps_error:
  assumes "length rcs \<le> length ubs"
  shows "itype (snd (adjustUpperBounds rcs ubs ts bo (length rcs) st item ub)) = itype item"
    and "error (snd (adjustUpperBounds rcs ubs ts bo (length rcs) st item ub)) = error item"
  using adjustUpperBounds_item[OF assms, of rcs ts bo st item ub] by (simp_all split: if_splits)

text \<open>
  Claim C2. Take a request for an existing channel, a channel store that loads every
  channel under its own id and the requested channel as \<open>getChannel\<close> and \<open>loadLineup\<close> gave
  it, and a Playback Cache with no entry for the timestamp of the request. If after some
  iterations the redirect loop stands before a redirect whose target is already in the
  visited list, then the loop ends; the resolved item is the error item whose message lists
  the visited chain, from the requested channel up to the channel at which a cycle was
  first recorded (a non-empty prefix of the final visited list); \<open>startStream\<close> returns, and
  the cache then holds for the requested channel an error item with that message. The loop
  itself has no \<open>break\<close> at line 142: it ends when the cache returns the item recorded at
  line 129 for a channel met again.
\<close>

theorem redirect_cycle_yields_error_item:
  assumes request: "req_channel req = Some rc" "getChannel env rc = Some ch0"
      "fileExists env (ffmpegExecutablePath env)"
    and db: "\<forall>c ch lu. loadChannelAndLineup env c = Some (ch, lu) \<longrightarrow> uuid ch = c"
      "loadChannelAndLineup env (uuid ch0) = Some (ch0, loadLineup env (uuid ch0))"
    and fresh: "\<And>c. channelCache st (c, ts) = None"
    and v0: "v0 = initialVars (st\<lparr>calls := calls st @ [(ts, allowSkip)]\<rparr>)
                (getCurrentProgramAndTimeElapsed env ts ch0 (loadLineup env (uuid ch0))) ch0"
    and reach: "(\<lambda>u u'. walk_body env ts u = Continue u')\<^sup>*\<^sup>* v0 v"
    and cycle: "cycleFound v"
  shows "\<exists>w n r st' item.
           walk env ts v0 = Some w \<and> 0 < n \<and> n \<le> length (w_redirectChannels w) \<and>
           hd (w_redirectChannels w) = uuid ch0 \<and>
           w_lineupItem w = Some (recursiveRedirectItem (take n (w_redirectChannels w))) \<and>
           startStream env st req ts allowSkip = Some (r, st') \<and>
           channelCache st' (uuid ch0, ts) = Some item \<and> itype item = Error \<and>
           error item = Some (''Recursive channel redirect found: '' @
                               join '', '' (take n (w_redirectChannels w)))"
proof -
  have "walkInv env ts (uuid ch0) v0"
    unfolding v0 using fresh db(2) by (intro walkInv_initial) simp_all
  then have "walkInv env ts (uuid ch0) v"
    using walkInv_after_iterations[OF db(1) reach] by simp
  from walk_in_cycle_returns[OF db(1) this cycle] walk_after_iterations[OF reach]
  obtain w n where w: "walk env ts v0 = Some w" "0 < n" "n \<le> length (w_redirectChannels w)"
    "hd (w_redirectChannels w) = uuid ch0"
    "w_lineupItem w = Some (recursiveRedirectItem (take n (w_redirectChannels w)))"
    by auto
  let ?item = "recursiveRedirectItem (take n (w_redirectChannels w))"
  let ?r = "finishStream env (w_state w) req ts ch0 (w_channelContext w)
              (w_redirectChannels w) (w_upperBounds w) ?item"
  have run: "startStream env st req ts allowSkip = Some ?r"
    using request w(1,5) unfolding v0
    by (subst startStream.simps) (simp add: Let_def)
  have len: "length (w_redirectChannels w) \<le> length (w_upperBounds w)"
    using walk_lengths[OF w(1)[unfolded v0]] by simp
  let ?bounded = "snd (adjustUpperBounds (w_redirectChannels w) (w_upperBounds w) ts
             (case beginningOffset ?item of None \<Rightarrow> 0 | Some b \<Rightarrow> b)
             (length (w_redirectChannels w)) (w_state w) ?item MAX_SAFE_INTEGER)"
  have rec: "channelCache (snd ?r) (uuid ch0, ts) = Some ?bounded"
    by (rule finishStream_bounded(1)[OF refl refl])
  have "itype ?bounded = Error" "error ?bounded = Some (''Recursive channel redirect found: '' @
                               join '', '' (take n (w_redirectChannels w)))"
    using adjustUpperBounds_keeps_error[OF len] by (simp_all add: recursiveRedirectItem_def)
  with w run rec show ?thesis
    by (intro exI[of _ w] exI[of _ n] exI[of _ "fst ?r"] exI[of _ "snd ?r"] exI[of _ ?bounded])
       simp
qed

lemma ex_walk_C:
  "walk ex_env 1000 (initialVars (ex_state\<lparr>calls := calls ex_state @ [(1000, False)]\<rparr>)
      (getCurrentProgramAndTimeElapsed ex_env 1000 (ex_channel ''C'') (loadLineup ex_env (uuid (ex_channel ''C''))))
      (ex_channel ''C'')) =
   Some \<lparr>w_state = recordPlayback (ex_state\<lparr>calls := [(1000, False)]\<rparr>) ''C'' 1000
                      (recursiveRedirectItem [''C'']),
         w_lineupItem = Some (recursiveRedirectItem [''C'']),
         w_currentProgram = Some \<lparr>program = ex_redirect ''C'', timeElapsed = 1000, programIndex = 0\<rparr>,
         w_channelContext = ex_channel ''C'', w_redirectChannels = [''C''],
         w_upperBounds = [299000]\<rparr>"
  by (simp add: walk.simps walk_body_def initialVars_def ex_defs Let_def
      getCurrentLineupItem_def recordPlayback_def deepCopy_def)

theorem redirect_cycle_yields_error_item_witness:
  "\<exists>r st' item. startStream ex_env ex_state (ex_req ''C'') 1000 False = Some (r, st') \<and>
     channelCache st' (''C'', 1000) = Some item \<and> itype item = Error \<and>
     error item = Some ''Recursive channel redirect found: C''"
proof -
  let ?v0 = "initialVars (ex_state\<lparr>calls := calls ex_state @ [(1000, False)]\<rparr>)
      (getCurrentProgramAndTimeElapsed ex_env 1000 (ex_channel ''C'') (loadLineup ex_env (uuid (ex_channel ''C''))))
      (ex_channel ''C'')"
  have "\<exists>w n r st' item.
           walk ex_env 1000 ?v0 = Some w \<and> 0 < n \<and> n \<le> length (w_redirectChannels w) \<and>
           hd (w_redirectChannels w) = uuid (ex_channel ''C'') \<and>
           w_lineupItem w = Some (recursiveRedirectItem (take n (w_redirectChannels w))) \<and>
           startStream ex_env ex_state (ex_req ''C'') 1000 False = Some (r, st') \<and>
           channelCache st' (uuid (ex_channel ''C''), 1000) = Some item \<and> itype item = Error \<and>
           error item = Some (''Recursive channel redirect found: '' @
                               join '', '' (take n (w_redirectChannels w)))"
  proof (rule redirect_cycle_yields_error_item[where rc = "''C''" and v = ?v0])
    show "(\<lambda>u u'. walk_body ex_env 1000 u = Continue u')\<^sup>*\<^sup>* ?v0 ?v0" by simp
    show "cycleFound ?v0"
      by (simp add: cycleFound_def initialVars_def ex_defs)
  qed (simp_all add: ex_defs)
  then obtain w n r st' item where h: "walk ex_env 1000 ?v0 = Some w" "0 < n"
    "n \<le> length (w_redirectChannels w)"
    "startStream ex_env ex_state (ex_req ''C'') 1000 False = Some (r, st')"
    "channelCache st' (uuid (ex_channel ''C''), 1000) = Some item" "itype item = Error"
    "error item = Some (''Recursive channel redirect found: '' @
                               join '', '' (take n (w_redirectChannels w)))"
    by blast
  from h(1) have "w_redirectChannels w = [''C'']"
    by (auto simp: ex_walk_C)
  with h(2,3) have "take n (w_redirectChannels w) = [''C'']" by (cases n) simp_all
  with h(4-7) show ?thesis
    by (intro exI[of _ r] exI[of _ st'] exI[of _ item]) (simp add: ex_channel_def)
qed

subsection \<open>JellyfinPlayer\<close>

lemmas ex_jf_defs = ex_jellyfin_def ex_jellyfin_unreachable_def ex_item_def ex_context_def
  ex_content_def ex_channel_def newJellyfinPlayer_def emptyWorld_def playWith_def

text \<open>
  Claim C6. When the stream negotiation fails (\<open>getStream\<close> returns null), \<open>play\<close> logs and
  returns undefined at line 95: no process is spawned, no error slate is substituted and
  nothing is piped into the output stream, while \<open>startStream\<close> still returns a success
  result. The run below is a request for channel \<open>B\<close> against the source whose negotiation
  fails, and \<open>play\<close> on the context that this request hands to the player.
\<close>

theorem negotiation_failure_leaves_sink_silent:
  "map_option fst (startStream (ex_env\<lparr>play := playWith ex_jellyfin_unreachable\<rparr>) ex_state
       (ex_req ''B'') 1210000 False) = Some Success \<and>
   itype (lineupItem (hd (played (snd (the (startStream
       (ex_env\<lparr>play := playWith ex_jellyfin_unreachable\<rparr>) ex_state
       (ex_req ''B'') 1210000 False)))))) = Program \<and>
   jellyfin_play ex_jellyfin_unreachable
     (newJellyfinPlayer (hd (played (snd (the (startStream
        (ex_env\<lparr>play := playWith ex_jellyfin_unreachable\<rparr>) ex_state
        (ex_req ''B'') 1210000 False))))), emptyWorld) =
     (PlayReturns None,
      (newJellyfinPlayer (hd (played (snd (the (startStream
        (ex_env\<lparr>play := playWith ex_jellyfin_unreachable\<rparr>) ex_state
        (ex_req ''B'') 1210000 False))))))\<lparr>ffmpeg := Some 0\<rparr>,
      emptyWorld\<lparr>nextId := 1\<rparr>) \<and>
   piped (emptyWorld\<lparr>nextId := 1\<rparr>) = [] \<and>
   spawnStreamCalls (emptyWorld\<lparr>nextId := 1\<rparr>) = [] \<and>
   spawnErrorCalls (emptyWorld\<lparr>nextId := 1\<rparr>) = []"
  by (simp add: jellyfin_play_def isContentBackedLineupIteam_def effectiveStreamDuration_def
      ex_jf_defs startStream.simps walk.simps walk_body_def initialVars_def ex_defs Let_def
      finishStream_def recordPlayback_def getCurrentLineupItem_def)

lemma jellyfin_play_spawn:
  assumes "isContentBackedLineupIteam (lineupItem (context' p))"
    and "findServer env (externalSourceId (lineupItem (context' p))) = Some server"
    and "getStream env (lineupItem (context' p)) = Some stream0"
    and "\<not> killed p"
  shows "spawnStreamCalls (snd (snd (jellyfin_play env (p, w)))) = spawnStreamCalls w @
     [\<lparr>sp_ffmpeg = nextId w,
       sp_streamUrl = streamUrl stream0,
       sp_streamDetails = map_option (\<lambda>d. d\<lparr>sd_duration := streamDuration (lineupItem (context' p))\<rparr>)
                            (streamDetails stream0),
       sp_startTime_ms = (case start (lineupItem (context' p)) of None \<Rightarrow> 0 | Some s \<Rightarrow> s),
       sp_duration_ms = effectiveStreamDuration env (lineupItem (context' p)),
       sp_token = accessToken server\<rparr>]"
  using assms
  by (simp add: jellyfin_play_def Let_def split: option.splits)

text \<open>
  Claim C7. For a content-backed item whose \<open>play\<close> reaches \<open>spawnStream\<close> (the source is
  found, the negotiation answers and the player was not killed), exactly one
  \<open>spawnStream\<close> call is made, and its duration argument is defined if and only if the item
  has a stream duration \<open>d\<close> with \<open>start + d + SLACK < duration\<close>; when defined it is that
  stream duration (divided by 1000 in the source), otherwise no duration is passed.
\<close>

theorem duration_cap_passed_iff:
  assumes "isContentBackedLineupIteam item" and "lineupItem (context' p) = item"
    and "findServer env (externalSourceId item) = Some server"
    and "getStream env item = Some stream0"
    and "\<not> killed p"
  shows "\<exists>call. spawnStreamCalls (snd (snd (jellyfin_play env (p, w)))) =
                  spawnStreamCalls w @ [call] \<and>
           (sp_duration_ms call \<noteq> None \<longleftrightarrow>
              (\<exists>d. streamDuration item = Some d \<and>
                 (case start item of None \<Rightarrow> 0 | Some s \<Rightarrow> s) + d + constants_SLACK env
                   < duration item)) \<and>
           (sp_duration_ms call \<noteq> None \<longrightarrow> sp_duration_ms call = streamDuration item)"
  using jellyfin_play_spawn[of p env server stream0 w] assms
  by (auto simp: effectiveStreamDuration_def split: option.splits)

theorem duration_cap_passed_iff_witness:
  "spawnStreamCalls (snd (snd (jellyfin_play ex_jellyfin (newJellyfinPlayer ex_context, emptyWorld)))) =
     [\<lparr>sp_ffmpeg = 0, sp_streamUrl = ''http://jellyfin/Videos/item-42/stream'',
       sp_streamDetails = Some \<lparr>sd_duration = Some 120000\<rparr>, sp_startTime_ms = 0,
       sp_duration_ms = Some 120000, sp_token = ''secret''\<rparr>] \<and>
   (0::int) + 120000 + 9999 < 1200000"
proof -
  have "\<exists>call. spawnStreamCalls (snd (snd (jellyfin_play ex_jellyfin
            (newJellyfinPlayer ex_context, emptyWorld)))) = spawnStreamCalls emptyWorld @ [call] \<and>
           (sp_duration_ms call \<noteq> None \<longleftrightarrow>
              (\<exists>d. streamDuration ex_item = Some d \<and>
                 (case start ex_item of None \<Rightarrow> 0 | Some s \<Rightarrow> s) + d + constants_SLACK ex_jellyfin
                   < duration ex_item)) \<and>
           (sp_duration_ms call \<noteq> None \<longrightarrow> sp_duration_ms call = streamDuration ex_item)"
    by (rule duration_cap_passed_iff[where server = "\<lparr>accessToken = ''secret''\<rparr>"])
       (simp_all add: ex_jf_defs isContentBackedLineupIteam_def)
  then show ?thesis
    by (simp add: jellyfin_play_def isContentBackedLineupIteam_def effectiveStreamDuration_def
        ex_jf_defs Let_def)
qed

lemma jellyfin_play_started:
  assumes "isContentBackedLineupIteam (lineupItem (context' p))"
    and "findServer env (externalSourceId (lineupItem (context' p))) = Some server"
    and "getStream env (lineupItem (context' p)) = Some stream0"
    and "\<not> killed p" and "spawnStreamReturns env"
    and "jellyfin_play env (p, w) = (r, p1, w1)"
  shows "r = PlayReturns (Some (Suc (nextId w)))"
    and "ffmpeg p1 = Some (nextId w)"
    and "ffmpegOutStream p1 = Some (Suc (Suc (nextId w)))"
    and "piped w1 = piped w @ [(Suc (Suc (nextId w)), False)]"
    and "listeners w1 = listeners w @
          [(nextId w, OnEnd, EmitEnd (Suc (nextId w))),
           (nextId w, OnClose, EmitClose (Suc (nextId w))),
           (nextId w, OnError, ReplaceFailed (Suc (nextId w))
              (case streamDetails stream0 of None \<Rightarrow> stream0
               | Some details \<Rightarrow> stream0\<lparr>streamDetails :=
                   Some (details\<lparr>sd_duration := streamDuration (lineupItem (context' p))\<rparr>)\<rparr>))]"
    and "Suc (Suc (Suc (nextId w))) \<le> nextId w1"
    and "spawnErrorCalls w1 = spawnErrorCalls w" and "emitted w1 = emitted w"
    and "killCalls w1 = killCalls w" and "taskStopCalls w1 = taskStopCalls w"
  using assms
  by (auto simp: jellyfin_play_def Let_def split: option.splits if_splits)


lemma filter_fresh:
  assumes "\<forall>l \<in> set ls. fst l < (n::nat)"
  shows "filter (\<lambda>l. fst l = n \<and> P l) ls = []" and "filter (\<lambda>l. fst l \<noteq> n) ls = ls"
  using assms by (auto simp: filter_empty_conv filter_id_conv)

text \<open>
  Claim C8. After a \<open>play\<close> that returned its emitter, an \<open>error\<close> event of the subprocess
  unpipes the failed stream from the output stream, removes every listener of the failed
  \<open>FFMPEG\<close> object, calls \<open>spawnError\<close> on a new \<open>FFMPEG\<close> object with the duration
  \<open>min(stream.streamDetails?.duration ?? 30000, 60000)\<close>, where \<open>play\<close> had set that duration to
  the stream duration of the lineup item, pipes the new stream into the same output stream
  (when \<open>spawnError\<close> returns one), and emits the error on the emitter that \<open>play\<close> returned;
  every later event of the new object is emitted on that same emitter. The objects known
  to the world before \<open>play\<close> are older than the ones it creates.
\<close>

theorem error_event_substitutes_error_slate:
  assumes content: "isContentBackedLineupIteam (lineupItem (context' p))"
    and server: "findServer env (externalSourceId (lineupItem (context' p))) = Some server"
    and stream: "getStream env (lineupItem (context' p)) = Some stream0"
    and alive: "\<not> killed p"
    and spawns: "spawnStreamReturns env" "spawnErrorReturns env"
    and fresh: "\<forall>l \<in> set (listeners w). fst l < nextId w" "\<forall>s \<in> set (piped w). fst s < nextId w"
    and play: "jellyfin_play env (p, w) = (r, p1, w1)"
    and emit: "ffmpeg_emit env (nextId w) (EvError err) (p1, w1) = (p2, w2)"
  shows "\<exists>emitter failed f' out'.
           r = PlayReturns (Some emitter) \<and> ffmpeg p1 = Some (nextId w) \<and>
           ffmpegOutStream p1 = Some failed \<and> (failed, False) \<in> set (piped w1) \<and>
           ffmpeg p2 = Some f' \<and> f' \<noteq> nextId w \<and> ffmpegOutStream p2 = Some out' \<and>
           piped w2 = filter (\<lambda>s. fst s \<noteq> failed) (piped w1) @ [(out', True)] \<and>
           failed \<notin> fst ` set (piped w2) \<and>
           (\<forall>l \<in> set (listeners w2). fst l \<noteq> nextId w) \<and>
           spawnErrorCalls w2 = spawnErrorCalls w1 @
             [(f', ''oops'', ''oops'', min (case streamDetails stream0 of
                    None \<Rightarrow> 30000
                  | Some details \<Rightarrow>
                      (case streamDuration (lineupItem (context' p)) of
                         None \<Rightarrow> 30000 | Some d \<Rightarrow> d))
                60000)] \<and>
           emitted w2 = emitted w1 @ [(emitter, EvError err)] \<and>
           (\<forall>ev. emitted (snd (ffmpeg_emit env f' ev (p2, w2))) = emitted w2 @ [(emitter, ev)])"
proof -
  let ?f = "nextId w"
  let ?em = "Suc ?f"
  let ?failed = "Suc (Suc ?f)"
  let ?stream = "case streamDetails stream0 of None \<Rightarrow> stream0
               | Some details \<Rightarrow> stream0\<lparr>streamDetails :=
                   Some (details\<lparr>sd_duration := streamDuration (lineupItem (context' p))\<rparr>)\<rparr>"
  note st = jellyfin_play_started[OF content server stream alive spawns(1) play]
  have old: "filter (\<lambda>l. fst l = ?f \<and> fst (snd l) = OnError) (listeners w) = []"
    "filter (\<lambda>l. fst l \<noteq> ?f) (listeners w) = listeners w"
    using filter_fresh[OF fresh(1)] by simp_all
  have oldp: "filter (\<lambda>s. fst s \<noteq> ?failed) (piped w) = piped w"
    using fresh(2) by (auto simp: filter_id_conv)
  have run: "(p2, w2) = run_handler env (ReplaceFailed ?em ?stream) (EvError err) (p1, w1)"
    using emit by (simp add: ffmpeg_emit_def st(5) old)
  let ?f' = "nextId w1"
  let ?out' = "Suc ?f'"
  have f': "?f' \<noteq> ?f" "?failed < ?f'" using st(6) by simp_all
  have slate: "min (case streamDetails ?stream of None \<Rightarrow> 30000
                    | Some details \<Rightarrow> (case sd_duration details of None \<Rightarrow> 30000 | Some d \<Rightarrow> d))
                   60000 = min (case streamDetails stream0 of
                    None \<Rightarrow> 30000
                  | Some details \<Rightarrow>
                      (case streamDuration (lineupItem (context' p)) of
                         None \<Rightarrow> 30000 | Some d \<Rightarrow> d))
                60000"
    by (simp split: option.splits)
  have p2: "ffmpeg p2 = Some ?f'" "ffmpegOutStream p2 = Some ?out'"
    using run spawns(2) by (simp_all add: st Let_def)
  have piped2: "piped w2 = filter (\<lambda>s. fst s \<noteq> ?failed) (piped w1) @ [(?out', True)]"
    using run spawns(2) by (simp add: st Let_def)
  have notin: "?failed \<notin> fst ` set (piped w2)"
    using f'(2) by (auto simp: piped2)
  have lis2: "listeners w2 = listeners w @
        [(?f', OnClose, EmitClose ?em), (?f', OnEnd, EmitEnd ?em), (?f', OnError, EmitError ?em)]"
    using run spawns(2) by (simp add: st Let_def old)
  have removed: "\<forall>l \<in> set (listeners w2). fst l \<noteq> ?f"
    using fresh(1) f'(1) by (auto simp: lis2)
  have calls2: "spawnErrorCalls w2 = spawnErrorCalls w1 @
             [(?f', ''oops'', ''oops'', min (case streamDetails stream0 of
                    None \<Rightarrow> 30000
                  | Some details \<Rightarrow>
                      (case streamDuration (lineupItem (context' p)) of
                         None \<Rightarrow> 30000 | Some d \<Rightarrow> d))
                60000)]"
    using run spawns(2) slate by (simp add: st Let_def)
  have em2: "emitted w2 = emitted w1 @ [(?em, EvError err)]"
    using run spawns(2) by (simp add: st Let_def)
  have le: "\<forall>l \<in> set (listeners w). fst l < ?f'"
    using fresh(1) st(6) by auto
  have later: "emitted (snd (ffmpeg_emit env ?f' ev (p2, w2))) = emitted w2 @ [(?em, ev)]" for ev
    using filter_fresh(1)[OF le]
    by (cases ev) (simp_all add: ffmpeg_emit_def lis2)
  have inp: "(?failed, False) \<in> set (piped w1)" by (simp add: st)
  from st(1,2,3) inp p2 f'(1) piped2 notin removed calls2 em2 later show ?thesis
    by blast
qed


theorem error_event_substitutes_error_slate_witness:
  "jellyfin_play ex_jellyfin (newJellyfinPlayer ex_context, emptyWorld) =
     (PlayReturns (Some 1),
      (newJellyfinPlayer ex_context)\<lparr>ffmpeg := Some 0, updatePlayStatusTask := Some 3,
                                       ffmpegOutStream := Some 2\<rparr>,
      emptyWorld\<lparr>nextId := 4, piped := [(2, False)],
        listeners := [(0, OnEnd, EmitEnd 1), (0, OnClose, EmitClose 1),
          (0, OnError, ReplaceFailed 1
             \<lparr>streamUrl = ''http://jellyfin/Videos/item-42/stream'',
              streamDetails = Some \<lparr>sd_duration = Some 120000\<rparr>\<rparr>)],
        spawnStreamCalls := [\<lparr>sp_ffmpeg = 0, sp_streamUrl = ''http://jellyfin/Videos/item-42/stream'',
          sp_streamDetails = Some \<lparr>sd_duration = Some 120000\<rparr>, sp_startTime_ms = 0,
          sp_duration_ms = Some 120000, sp_token = ''secret''\<rparr>],
        scheduledTasks := [3]\<rparr>) \<and>
   (\<exists>p2 w2. ffmpeg_emit ex_jellyfin 0 (EvError ''boom'')
        (snd (jellyfin_play ex_jellyfin (newJellyfinPlayer ex_context, emptyWorld))) = (p2, w2) \<and>
      ffmpeg p2 = Some 4 \<and> piped w2 = [(5, True)] \<and> listeners w2 =
        [(4, OnClose, EmitClose 1), (4, OnEnd, EmitEnd 1), (4, OnError, EmitError 1)] \<and>
      spawnErrorCalls w2 = [(4, ''oops'', ''oops'', 60000)] \<and>
      emitted w2 = [(1, EvError ''boom'')] \<and>
      (\<forall>ev. emitted (snd (ffmpeg_emit ex_jellyfin 4 ev (p2, w2))) = emitted w2 @ [(1, ev)]))"
proof -
  let ?p1 = "(newJellyfinPlayer ex_context)\<lparr>ffmpeg := Some 0, updatePlayStatusTask := Some 3,
                                       ffmpegOutStream := Some 2\<rparr>"
  let ?stream = "\<lparr>streamUrl = ''http://jellyfin/Videos/item-42/stream'',
              streamDetails = Some \<lparr>sd_duration = Some 120000\<rparr>\<rparr>"
  let ?w1 = "emptyWorld\<lparr>nextId := 4, piped := [(2, False)],
        listeners := [(0, OnEnd, EmitEnd 1), (0, OnClose, EmitClose 1),
          (0, OnError, ReplaceFailed 1 ?stream)],
        spawnStreamCalls := [\<lparr>sp_ffmpeg = 0, sp_streamUrl = ''http://jellyfin/Videos/item-42/stream'',
          sp_streamDetails = Some \<lparr>sd_duration = Some 120000\<rparr>, sp_startTime_ms = 0,
          sp_duration_ms = Some 120000, sp_token = ''secret''\<rparr>],
        scheduledTasks := [3]\<rparr>"
  have play: "jellyfin_play ex_jellyfin (newJellyfinPlayer ex_context, emptyWorld) =
      (PlayReturns (Some 1), ?p1, ?w1)"
    by (simp add: jellyfin_play_def isContentBackedLineupIteam_def effectiveStreamDuration_def
        ex_jf_defs Let_def)
  obtain p2 w2 where emit: "ffmpeg_emit ex_jellyfin (nextId emptyWorld) (EvError ''boom'') (?p1, ?w1) = (p2, w2)"
    by (cases "ffmpeg_emit ex_jellyfin (nextId emptyWorld) (EvError ''boom'') (?p1, ?w1)") blast
  have vals: "ffmpeg p2 = Some 4 \<and> piped w2 = [(5, True)] \<and> listeners w2 =
        [(4, OnClose, EmitClose 1), (4, OnEnd, EmitEnd 1), (4, OnError, EmitError 1)] \<and>
      spawnErrorCalls w2 = [(4, ''oops'', ''oops'', 60000)] \<and> emitted w2 = [(1, EvError ''boom'')]"
    using emit by (auto simp: ffmpeg_emit_def ex_jf_defs Let_def)
  have "\<exists>emitter failed f' out'.
           PlayReturns (Some 1) = PlayReturns (Some emitter) \<and> ffmpeg ?p1 = Some (nextId emptyWorld) \<and>
           ffmpegOutStream ?p1 = Some failed \<and> (failed, False) \<in> set (piped ?w1) \<and>
           ffmpeg p2 = Some f' \<and> f' \<noteq> nextId emptyWorld \<and> ffmpegOutStream p2 = Some out' \<and>
           piped w2 = filter (\<lambda>s. fst s \<noteq> failed) (piped ?w1) @ [(out', True)] \<and>
           failed \<notin> fst ` set (piped w2) \<and>
           (\<forall>l \<in> set (listeners w2). fst l \<noteq> nextId emptyWorld) \<and>
           spawnErrorCalls w2 = spawnErrorCalls ?w1 @
             [(f', ''oops'', ''oops'',
               min (case streamDetails \<lparr>streamUrl = ''http://jellyfin/Videos/item-42/stream'',
                                 streamDetails = Some \<lparr>sd_duration = None\<rparr>\<rparr> of
                    None \<Rightarrow> 30000
                  | Some details \<Rightarrow>
                      (case streamDuration (lineupItem (context' (newJellyfinPlayer ex_context))) of
                         None \<Rightarrow> 30000 | Some d \<Rightarrow> d))
                60000)] \<and>
           emitted w2 = emitted ?w1 @ [(emitter, EvError ''boom'')] \<and>
           (\<forall>ev. emitted (snd (ffmpeg_emit ex_jellyfin f' ev (p2, w2))) = emitted w2 @ [(emitter, ev)])"
  proof (rule error_event_substitutes_error_slate[where server = "\<lparr>accessToken = ''secret''\<rparr>"])
    show "jellyfin_play ex_jellyfin (newJellyfinPlayer ex_context, emptyWorld) =
      (PlayReturns (Some 1), ?p1, ?w1)" by (rule play)
    show "ffmpeg_emit ex_jellyfin (nextId emptyWorld) (EvError ''boom'') (?p1, ?w1) = (p2, w2)"
      by (rule emit)
  qed (simp_all add: ex_jf_defs isContentBackedLineupIteam_def)
  with vals have "\<forall>ev. emitted (snd (ffmpeg_emit ex_jellyfin 4 ev (p2, w2))) = emitted w2 @ [(1, ev)]"
    by auto
  with vals emit play show ?thesis
    by (simp add: emptyWorld_def)
qed

lemma stop_idempotent: "stop (stop st) = stop st"
  by (simp add: stop_def)

lemma cleanUp_kills_once:
  "killCalls (snd (cleanUp (cleanUp pw))) = killCalls (snd (cleanUp pw))"
  by (simp add: cleanUp_def Let_def split: option.splits)

lemma cleanUp_stops_task_again:
  "updatePlayStatusTask (fst pw) = Some task \<Longrightarrow>
   taskStopCalls (snd (cleanUp (cleanUp pw))) = taskStopCalls (snd pw) @ [task, task]"
  by (simp add: cleanUp_def Let_def split: option.splits)

text \<open>
  Claim C9. A second \<open>cleanUp\<close> makes no second \<open>kill\<close> (\<open>cleanUp_kills_once\<close>: the handle is
  nulled), and a second \<open>stop\<close> of the stream handle does nothing (\<open>stop_idempotent\<close>); but
  \<open>updatePlayStatusTask\<close> is never cleared, so a second \<open>cleanUp\<close> calls \<open>stop\<close> on the
  play-status task again. The runs below play an item with the play-status task enabled
  (the \<open>FFMPEG\<close> object is 0, the task is 3) and clean up twice, first directly and then
  after an \<open>error\<close> event has put the error slate (\<open>FFMPEG\<close> object 4) in place.
\<close>

theorem cleanUp_twice_stops_task_twice:
  "killCalls (snd (cleanUp (cleanUp (snd (jellyfin_play ex_jellyfin
       (newJellyfinPlayer ex_context, emptyWorld)))))) = [0] \<and>
   taskStopCalls (snd (cleanUp (snd (jellyfin_play ex_jellyfin
       (newJellyfinPlayer ex_context, emptyWorld))))) = [3] \<and>
   taskStopCalls (snd (cleanUp (cleanUp (snd (jellyfin_play ex_jellyfin
       (newJellyfinPlayer ex_context, emptyWorld)))))) = [3, 3] \<and>
   killCalls (snd (cleanUp (cleanUp (ffmpeg_emit ex_jellyfin 0 (EvError ''boom'')
       (snd (jellyfin_play ex_jellyfin (newJellyfinPlayer ex_context, emptyWorld))))))) = [4] \<and>
   taskStopCalls (snd (cleanUp (cleanUp (ffmpeg_emit ex_jellyfin 0 (EvError ''boom'')
       (snd (jellyfin_play ex_jellyfin (newJellyfinPlayer ex_context, emptyWorld))))))) = [3, 3]"
  by (simp add: cleanUp_def jellyfin_play_def isContentBackedLineupIteam_def
      effectiveStreamDuration_def ffmpeg_emit_def ex_jf_defs Let_def)

end
